theory Spec2Isabelle
  imports Main
begin

section \<open>The router matcher: data model\<close>

text \<open>
  The development follows \<open>createRouterMatcher\<close>: a registry holding the ordered array
  \<open>matchers\<close> and the name table \<open>matcherMap\<close>, with the operations \<open>addRoute\<close>,
  \<open>removeRoute\<close>, \<open>getRoutes\<close>, \<open>getRecordMatcher\<close> and \<open>resolve\<close>.

  The model is of the production build (\<open>__DEV__\<close> false): the warnings, which only
  print, and the development-only checks are not part of it.

  JavaScript objects used as dictionaries (\<open>params\<close>, \<open>meta\<close>) are plain objects: a map
  holds the own properties, and the object inherits the members of \<open>Object.prototype\<close>.
  \<open>assign(a, b)\<close> copies the own properties of \<open>b\<close> and is \<open>a ++ b\<close>; \<open>key in params\<close> and
  \<open>params[key]\<close> see the inherited members as well. No object has an own property named
  \<open>__proto__\<close>: neither an object literal nor an assignment makes one.
\<close>

subsection \<open>Parameters, names and compiled patterns\<close>

text \<open>
  A parameter value is a string or an array of strings. \<open>Inherited n\<close> is the member \<open>n\<close>
  of \<open>Object.prototype\<close> (the function \<open>toString\<close>, the function \<open>Object\<close> under
  \<open>constructor\<close>, ...): the value \<open>params[n]\<close> of a params object without an own property
  \<open>n\<close>.
\<close>

datatype param_value = Single string | Repeated "string list" | Inherited string

type_synonym path_params = "string \<rightharpoonup> param_value"

type_synonym route_meta = "string \<rightharpoonup> string"

text \<open>A route name is a string or a symbol; the empty string is the one falsy name.\<close>

datatype route_record_name = NameString string | NameSymbol nat

fun truthy_name :: "route_record_name option \<Rightarrow> bool" where
  "truthy_name None = False"
| "truthy_name (Some (NameString s)) = (s \<noteq> [])"
| "truthy_name (Some (NameSymbol n)) = True"

fun truthy_string :: "string option \<Rightarrow> bool" where
  "truthy_string None = False"
| "truthy_string (Some s) = (s \<noteq> [])"

record path_parser_key =
  key_name :: string
  key_optional :: bool
  key_repeatable :: bool

record path_parser_options =
  opt_strict :: bool
  opt_end :: bool
  opt_sensitive :: bool

text \<open>
  Modelled from the spec: the pattern compiler (\<open>pathParserRanker\<close>) is not among the
  sources. A compiled pattern has the parameter descriptors \<open>keys\<close>, \<open>parse\<close>, which
  "applies the expression; on failure returns a no match signal" (\<open>None\<close>), \<open>stringify\<close>,
  which "fails with an encoding error" (\<open>None\<close>) or gives the path, and the \<open>score\<close>.
  The matching expression \<open>re\<close> is the one \<open>parse\<close> applies, so \<open>re.test(path)\<close> holds
  exactly when \<open>parse(path)\<close> is not the no match signal.
\<close>

record path_parser =
  keys :: "path_parser_key list"
  parse :: "string \<Rightarrow> path_params option"
  stringify :: "path_params \<Rightarrow> string option"
  score :: "int list list"

text \<open>
  Modelled from the spec: the matcher's regular expression \<open>re\<close> is made by the pattern
  compiler, which is not among the sources; \<open>re.test(path)\<close> is that \<open>parse\<close> "applies the
  expression" with success.
\<close>

definition re_test :: "path_parser \<Rightarrow> string \<Rightarrow> bool" where
  "re_test parser path = (parse parser path \<noteq> None)"

subsection \<open>Route records\<close>

text \<open>
  A raw record gives its view as \<open>component\<close>, as \<open>components\<close> (possibly null) or not
  at all. Absent \<open>children\<close> and \<open>alias\<close> are the empty list, \<open>alias\<close> given as one
  string is the one-element list.
\<close>

datatype route_view =
  ViewAbsent
  | ViewComponent string
  | ViewComponents "(string \<times> string) list option"

record raw_path_options =
  raw_strict :: "bool option"
  raw_end :: "bool option"
  raw_sensitive :: "bool option"

datatype route_record_raw =
  RouteRecordRaw
    (raw_path: string)
    (raw_name: "route_record_name option")
    (raw_redirect: "string option")
    (raw_meta: "route_meta option")
    (raw_view: route_view)
    (raw_alias: "string list")
    (raw_options: raw_path_options)
    (raw_children: "route_record_raw list")

text \<open>
  The normalized record, with the fields this module reads. \<open>aliasOf\<close> refers to
  another normalized record: records are held by exactly one matcher each, so the
  reference is the identity of that matcher.
\<close>

record route_record_normalized =
  rec_path :: string
  rec_redirect :: "string option"
  rec_name :: "route_record_name option"
  rec_meta :: route_meta
  rec_aliasOf :: "nat option"
  rec_children :: "route_record_raw list"
  rec_components :: "(string \<times> string) list option"

text \<open>
  A matcher is an object with an identity (\<open>mid\<close>, its number in creation order). Its
  record, its compiled pattern and its \<open>parent\<close> are fixed when it is created and are
  part of the value; its \<open>children\<close> and \<open>alias\<close> arrays are extended later and live
  in the registry's store, under the matcher's identity.
\<close>

datatype route_record_matcher =
  RouteRecordMatcher
    (mid: nat)
    (mrecord: route_record_normalized)
    (mparser: path_parser)
    (mparent: "route_record_matcher option")

record router_matcher =
  globalOptions :: path_parser_options
  matchers :: "route_record_matcher list"
  matcherMap :: "route_record_name \<rightharpoonup> route_record_matcher"
  children_of :: "nat \<Rightarrow> route_record_matcher list"
  alias_of :: "nat \<Rightarrow> route_record_matcher list"
  next_id :: nat

subsection \<open>What the module imports\<close>

text \<open>
  The functions of \<open>pathMatcher\<close> and \<open>pathParserRanker\<close> are not among the sources; what
  the module uses of them is a parameter of the operations. The pattern compiler
  \<open>tokensToParser\<close> is a "pure function of its inputs", the path and the options; the
  comparator \<open>comparePathParserScore\<close> gives "negative | zero | positive"; \<open>linksChild\<close>
  says whether a new matcher enters its parent's \<open>children\<close>, given the new record and
  the parent's.
\<close>

record externals =
  tokensToParser :: "string \<Rightarrow> path_parser_options \<Rightarrow> path_parser"
  comparePathParserScore :: "path_parser \<Rightarrow> path_parser \<Rightarrow> int"
  linksChild :: "route_record_normalized \<Rightarrow> route_record_normalized \<Rightarrow> bool"

text \<open>
  Modelled from the spec: \<open>createRouteRecordMatcher\<close> (\<open>pathMatcher\<close>) is not among the
  sources. A record matcher is the "compiled pattern + its Normalized Record + parent +
  children + alias"; the new one gets the next number, its pattern compiled from the
  record's path and the options, empty \<open>children\<close> and \<open>alias\<close>, and the matcher "links
  parent/children/alias back-references": it is appended to its parent's \<open>children\<close>
  where \<open>linksChild\<close> says so.
\<close>

definition createRouteRecordMatcher ::
  "externals \<Rightarrow> route_record_normalized \<Rightarrow> route_record_matcher option
    \<Rightarrow> path_parser_options \<Rightarrow> router_matcher \<Rightarrow> route_record_matcher \<times> router_matcher"
where
  "createRouteRecordMatcher ext r parent options st =
     (let matcher =
            RouteRecordMatcher (next_id st) r (tokensToParser ext (rec_path r) options) parent;
          st1 = st\<lparr>next_id := Suc (next_id st),
                   children_of := (children_of st)(next_id st := []),
                   alias_of := (alias_of st)(next_id st := [])\<rparr>
      in (matcher,
          case parent of
            None \<Rightarrow> st1
          | Some p \<Rightarrow>
              if linksChild ext r (mrecord p)
              then st1\<lparr>children_of :=
                         (children_of st1)(mid p := children_of st1 (mid p) @ [matcher])\<rparr>
              else st1))"

section \<open>The registry operations\<close>

subsection \<open>Helpers\<close>

definition normalizeRouteRecord :: "route_record_raw \<Rightarrow> route_record_normalized" where
  "normalizeRouteRecord r =
     \<lparr>rec_path = raw_path r,
      rec_redirect = raw_redirect r,
      rec_name = raw_name r,
      rec_meta = (case raw_meta r of None \<Rightarrow> Map.empty | Some m \<Rightarrow> m),
      rec_aliasOf = None,
      rec_children = raw_children r,
      rec_components =
        (case raw_view r of
           ViewComponents cs \<Rightarrow> cs
         | ViewComponent c \<Rightarrow> Some [(''default'', c)]
         | ViewAbsent \<Rightarrow> None)\<rparr>"

definition mergeOptions :: "path_parser_options \<Rightarrow> raw_path_options \<Rightarrow> path_parser_options" where
  "mergeOptions defaults partialOptions =
     \<lparr>opt_strict = (case raw_strict partialOptions of Some b \<Rightarrow> b | None \<Rightarrow> opt_strict defaults),
      opt_end = (case raw_end partialOptions of Some b \<Rightarrow> b | None \<Rightarrow> opt_end defaults),
      opt_sensitive =
        (case raw_sensitive partialOptions of Some b \<Rightarrow> b | None \<Rightarrow> opt_sensitive defaults)\<rparr>"

fun isAliasRecord :: "route_record_matcher option \<Rightarrow> bool" where
  "isAliasRecord None = False"
| "isAliasRecord (Some (RouteRecordMatcher i r p par)) =
     (if rec_aliasOf r \<noteq> None then True else isAliasRecord par)"

text \<open>
  \<open>isRecordChildOf\<close> searches the \<open>children\<close> arrays downwards. A child is created
  after its parent, by \<open>createRouteRecordMatcher\<close>, so its number is larger and below
  \<open>next_id\<close>; the recursion descends along such links, which makes it terminate. On
  the registries the operations build every link is such, and the function satisfies
  the recursion of the source as it stands (\<open>built_isRecordChildOf\<close> below).
\<close>

function isRecordChildOf ::
  "router_matcher \<Rightarrow> route_record_matcher \<Rightarrow> route_record_matcher \<Rightarrow> bool"
where
  "isRecordChildOf st r parent =
     list_ex
       (\<lambda>child.
          if mid child = mid r then True
          else if mid parent < mid child \<and> mid child < next_id st
          then isRecordChildOf st r child
          else False)
       (children_of st (mid parent))"
  by pat_completeness auto
termination
  by (relation "measure (\<lambda>(st, r, parent). next_id st - mid parent)") auto

declare isRecordChildOf.simps [simp del]

text \<open>\<open>matchers.indexOf(matcher)\<close>: objects are compared by identity; \<open>None\<close> is \<open>-1\<close>.\<close>

fun indexOf :: "route_record_matcher list \<Rightarrow> route_record_matcher \<Rightarrow> nat option" where
  "indexOf [] m = None"
| "indexOf (x # xs) m = (if mid x = mid m then Some 0 else map_option Suc (indexOf xs m))"

text \<open>
  \<open>matchers.splice(index, 1)\<close>; with \<open>index = -1\<close> the start counts from the end and the
  last element goes.
\<close>

fun splice_out :: "nat option \<Rightarrow> 'a list \<Rightarrow> 'a list" where
  "splice_out None xs = butlast xs"
| "splice_out (Some index) xs = take index xs @ drop (Suc index) xs"

lemma indexOf_less: "indexOf xs m = Some i \<Longrightarrow> i < length xs"
  by (induction xs arbitrary: i) (auto split: if_splits)

subsection \<open>removeRoute\<close>

text \<open>
  \<open>removeRoute\<close> of a matcher removes it, when it is in \<open>matchers\<close>, and then calls
  itself on each of its children and each of its aliases. \<open>removeMatchers\<close> takes the
  calls still to be made, in the order the two \<open>forEach\<close> loops make them: those of the
  matcher just removed come before the ones pending from its callers.
\<close>

function removeMatchers :: "route_record_matcher list \<Rightarrow> router_matcher \<Rightarrow> router_matcher" where
  "removeMatchers [] st = st"
| "removeMatchers (matcherRef # pending) st =
     (case indexOf (matchers st) matcherRef of
        None \<Rightarrow> removeMatchers pending st
      | Some index \<Rightarrow>
          removeMatchers
            (children_of st (mid matcherRef) @ alias_of st (mid matcherRef) @ pending)
            (st\<lparr>matchers := splice_out (Some index) (matchers st),
                matcherMap :=
                  (if truthy_name (rec_name (mrecord matcherRef))
                   then (matcherMap st)(the (rec_name (mrecord matcherRef)) := None)
                   else matcherMap st)\<rparr>))"
  by pat_completeness auto
termination
  by (relation "measures [\<lambda>(pending, st). length (matchers st), \<lambda>(pending, st). length pending]")
    (auto dest: indexOf_less)

datatype matcher_ref = RefName route_record_name | RefMatcher route_record_matcher

fun removeRoute :: "matcher_ref \<Rightarrow> router_matcher \<Rightarrow> router_matcher" where
  "removeRoute (RefName name) st =
     (case matcherMap st name of
        None \<Rightarrow> st
      | Some matcher \<Rightarrow>
          removeMatchers (children_of st (mid matcher) @ alias_of st (mid matcher))
            (st\<lparr>matcherMap := (matcherMap st)(name := None),
                matchers := splice_out (indexOf (matchers st) matcher) (matchers st)\<rparr>))"
| "removeRoute (RefMatcher matcherRef) st = removeMatchers [matcherRef] st"

subsection \<open>insertMatcher\<close>

text \<open>The \<open>while\<close> loop: the number of elements of \<open>ms\<close> the index \<open>i\<close> passes.\<close>

fun insertIndex ::
  "externals \<Rightarrow> router_matcher \<Rightarrow> route_record_matcher \<Rightarrow> route_record_matcher list \<Rightarrow> nat"
where
  "insertIndex ext st matcher [] = 0"
| "insertIndex ext st matcher (m # ms) =
     (if comparePathParserScore ext (mparser matcher) (mparser m) \<ge> 0 \<and>
         (rec_path (mrecord matcher) \<noteq> rec_path (mrecord m) \<or> \<not> isRecordChildOf st matcher m)
      then Suc (insertIndex ext st matcher ms)
      else 0)"

definition insertMatcher ::
  "externals \<Rightarrow> route_record_matcher \<Rightarrow> router_matcher \<Rightarrow> router_matcher"
where
  "insertMatcher ext matcher st =
     (let i = insertIndex ext st matcher (matchers st)
      in st\<lparr>matchers := take i (matchers st) @ matcher # drop i (matchers st),
             matcherMap :=
               (if truthy_name (rec_name (mrecord matcher)) \<and> \<not> isAliasRecord (Some matcher)
                then (matcherMap st)(the (rec_name (mrecord matcher)) \<mapsto> matcher)
                else matcherMap st)\<rparr>)"

subsection \<open>addRoute\<close>

definition startsWithSlash :: "string \<Rightarrow> bool" where
  "startsWithSlash path = (case path of [] \<Rightarrow> False | c # _ \<Rightarrow> c = CHR ''/'')"

definition joinPath :: "string \<Rightarrow> string \<Rightarrow> string" where
  "joinPath parentPath path =
     parentPath @
       (if path = [] then []
        else (if parentPath \<noteq> [] \<and> last parentPath = CHR ''/'' then [] else ''/'') @ path)"

text \<open>The test before \<open>insertMatcher\<close>: the record displays something.\<close>

definition hasRenderTarget :: "route_record_matcher \<Rightarrow> bool" where
  "hasRenderTarget matcher =
     ((case rec_components (mrecord matcher) of None \<Rightarrow> False | Some cs \<Rightarrow> cs \<noteq> []) \<or>
      truthy_name (rec_name (mrecord matcher)) \<or>
      truthy_string (rec_redirect (mrecord matcher)))"

text \<open>
  The list \<open>normalizedRecords\<close>: the main record, then one copy per alias. The main
  record's matcher is the first one the call creates, so a copy refers to it by
  \<open>next_id\<close> when there is no \<open>originalRecord\<close>.
\<close>

definition normalizedRecords ::
  "route_record_raw \<Rightarrow> route_record_matcher option \<Rightarrow> router_matcher
    \<Rightarrow> route_record_normalized list"
where
  "normalizedRecords r originalRecord st =
     (let mainNormalizedRecord =
            (normalizeRouteRecord r)\<lparr>rec_aliasOf := map_option mid originalRecord\<rparr>
      in mainNormalizedRecord #
         map (\<lambda>a. mainNormalizedRecord
                \<lparr>rec_components :=
                   (case originalRecord of
                      Some orig \<Rightarrow> rec_components (mrecord orig)
                    | None \<Rightarrow> rec_components mainNormalizedRecord),
                 rec_path := a,
                 rec_aliasOf :=
                   (case originalRecord of
                      Some orig \<Rightarrow> Some (mid orig)
                    | None \<Rightarrow> Some (next_id st))\<rparr>)
           (raw_alias r))"

text \<open>
  The body of the loop over \<open>normalizedRecords\<close> up to the recursion into the
  children: the path is joined to the parent's, the matcher is created, it is
  entered as an alias of the original, and a root addition of a named record first
  removes the route of that name. It gives the matcher, \<open>originalMatcher\<close> and the
  registry.
\<close>

definition openRecord ::
  "externals \<Rightarrow> route_record_raw \<Rightarrow> bool \<Rightarrow> route_record_matcher option
    \<Rightarrow> path_parser_options \<Rightarrow> route_record_normalized \<Rightarrow> route_record_matcher option
    \<Rightarrow> route_record_matcher option \<Rightarrow> router_matcher
    \<Rightarrow> route_record_matcher \<times> route_record_matcher option \<times> router_matcher"
where
  "openRecord ext r isRootAdd parent options normalizedRecord originalRecord originalMatcher st =
     (let path = rec_path normalizedRecord;
          normalizedRecord1 =
            (case parent of
               Some p \<Rightarrow>
                 if \<not> startsWithSlash path
                 then normalizedRecord\<lparr>rec_path := joinPath (rec_path (mrecord p)) path\<rparr>
                 else normalizedRecord
             | None \<Rightarrow> normalizedRecord);
          (matcher, st1) = createRouteRecordMatcher ext normalizedRecord1 parent options st
      in case originalRecord of
           Some orig \<Rightarrow>
             (matcher, originalMatcher,
              st1\<lparr>alias_of := (alias_of st1)(mid orig := alias_of st1 (mid orig) @ [matcher])\<rparr>)
         | None \<Rightarrow>
             (let om = (case originalMatcher of Some m \<Rightarrow> m | None \<Rightarrow> matcher);
                  st2 = (if mid om \<noteq> mid matcher
                         then st1\<lparr>alias_of := (alias_of st1)(mid om := alias_of st1 (mid om) @ [matcher])\<rparr>
                         else st1);
                  st3 = (if isRootAdd \<and> truthy_name (raw_name r) \<and> \<not> isAliasRecord (Some matcher)
                         then removeRoute (RefName (the (raw_name r))) st2
                         else st2)
              in (matcher, Some om, st3)))"

text \<open>The end of the loop body: a record that displays nothing is not inserted.\<close>

definition closeRecord ::
  "externals \<Rightarrow> route_record_matcher \<Rightarrow> router_matcher \<Rightarrow> router_matcher"
where
  "closeRecord ext matcher st = (if hasRenderTarget matcher then insertMatcher ext matcher st else st)"

text \<open>\<open>originalRecord && originalRecord.children[i]\<close>, read when child \<open>i\<close> is added.\<close>

definition originalChild ::
  "route_record_matcher option \<Rightarrow> nat \<Rightarrow> router_matcher \<Rightarrow> route_record_matcher option"
where
  "originalChild originalRecord i st =
     (case originalRecord of
        None \<Rightarrow> None
      | Some orig \<Rightarrow>
          if i < length (children_of st (mid orig)) then Some (children_of st (mid orig) ! i)
          else None)"

text \<open>
  \<open>addRoute\<close> gives the matcher its de-registration callback removes
  (\<open>originalMatcher\<close>; \<open>None\<close> for \<open>noop\<close>) and the registry. \<open>addRecords\<close> is its loop over
  \<open>normalizedRecords\<close>, with the variables \<open>originalRecord\<close> and \<open>originalMatcher\<close>;
  \<open>addChildren\<close> is the loop over the children, from index \<open>i\<close>.
\<close>

lemma size_raw_children: "size_list size (raw_children r) < size r"
  by (cases r) simp

function addRoute ::
  "externals \<Rightarrow> route_record_raw \<Rightarrow> route_record_matcher option
    \<Rightarrow> route_record_matcher option \<Rightarrow> router_matcher
    \<Rightarrow> route_record_matcher option \<times> router_matcher"
and addRecords ::
  "externals \<Rightarrow> route_record_raw \<Rightarrow> bool \<Rightarrow> route_record_matcher option
    \<Rightarrow> path_parser_options \<Rightarrow> route_record_normalized list
    \<Rightarrow> route_record_matcher option \<Rightarrow> route_record_matcher option \<Rightarrow> router_matcher
    \<Rightarrow> route_record_matcher option \<times> router_matcher"
and addChildren ::
  "externals \<Rightarrow> route_record_raw list \<Rightarrow> nat \<Rightarrow> route_record_matcher
    \<Rightarrow> route_record_matcher option \<Rightarrow> router_matcher \<Rightarrow> router_matcher"
where
  "addRoute ext r parent originalRecord st =
     addRecords ext r (originalRecord = None) parent
       (mergeOptions (globalOptions st) (raw_options r))
       (normalizedRecords r originalRecord st)
       originalRecord None st"
| "addRecords ext r isRootAdd parent options [] originalRecord originalMatcher st =
     (originalMatcher, st)"
| "addRecords ext r isRootAdd parent options
       (normalizedRecord # rest) originalRecord originalMatcher st =
     (case openRecord ext r isRootAdd parent options
             normalizedRecord originalRecord originalMatcher st of
        (matcher, originalMatcher1, st1) \<Rightarrow>
          addRecords ext r isRootAdd parent options rest
            (case originalRecord of Some orig \<Rightarrow> Some orig | None \<Rightarrow> Some matcher)
            originalMatcher1
            (closeRecord ext matcher (addChildren ext (raw_children r) 0 matcher originalRecord st1)))"
| "addChildren ext [] i matcher originalRecord st = st"
| "addChildren ext (child # rest) i matcher originalRecord st =
     addChildren ext rest (Suc i) matcher originalRecord
       (snd (addRoute ext child (Some matcher) (originalChild originalRecord i st) st))"
  by pat_completeness auto
termination
  by (relation "measures
        [\<lambda>x. case x of
               Inl (ext, r, rest) \<Rightarrow> 3 * size r + 2
             | Inr (Inl (ext, r, rest)) \<Rightarrow> 3 * size r + 1
             | Inr (Inr (ext, cs, rest)) \<Rightarrow> 3 * size_list size cs,
         \<lambda>x. case x of
               Inl t \<Rightarrow> 0
             | Inr (Inl (ext, r, isRootAdd, parent, options, nrs, rest)) \<Rightarrow> length nrs
             | Inr (Inr t) \<Rightarrow> 0]")
    (auto simp: less_Suc_eq_le size_raw_children [THEN less_imp_le])

declare addRoute.simps [simp del]

subsection \<open>createRouterMatcher and the accessors\<close>

definition emptyMatcher :: "raw_path_options \<Rightarrow> router_matcher" where
  "emptyMatcher globalOpts =
     \<lparr>globalOptions =
        mergeOptions \<lparr>opt_strict = False, opt_end = True, opt_sensitive = False\<rparr> globalOpts,
      matchers = [],
      matcherMap = Map.empty,
      children_of = (\<lambda>i. []),
      alias_of = (\<lambda>i. []),
      next_id = 0\<rparr>"

text \<open>\<open>routes.forEach(route => addRoute(route))\<close>.\<close>

fun addRoutes :: "externals \<Rightarrow> route_record_raw list \<Rightarrow> router_matcher \<Rightarrow> router_matcher" where
  "addRoutes ext [] st = st"
| "addRoutes ext (route # routes) st =
     addRoutes ext routes (snd (addRoute ext route None None st))"

definition createRouterMatcher ::
  "externals \<Rightarrow> route_record_raw list \<Rightarrow> raw_path_options \<Rightarrow> router_matcher"
where
  "createRouterMatcher ext routes globalOpts = addRoutes ext routes (emptyMatcher globalOpts)"

text \<open>
  \<open>getRoutes\<close> returns the array \<open>matchers\<close> itself, not a copy: the value is a
  reference, read in whatever registry state the reader is in. The arrays of the
  store are \<open>matchers\<close> and each matcher's \<open>children\<close> and \<open>alias\<close>.
\<close>

datatype array_ref = MatchersArray | ChildrenArray nat | AliasArray nat

fun read_array :: "router_matcher \<Rightarrow> array_ref \<Rightarrow> route_record_matcher list" where
  "read_array st MatchersArray = matchers st"
| "read_array st (ChildrenArray i) = children_of st i"
| "read_array st (AliasArray i) = alias_of st i"

definition getRoutes :: "router_matcher \<Rightarrow> array_ref \<times> router_matcher" where
  "getRoutes st = (MatchersArray, st)"

definition getRecordMatcher ::
  "route_record_name \<Rightarrow> router_matcher \<Rightarrow> route_record_matcher option \<times> router_matcher"
where
  "getRecordMatcher name st = (matcherMap st name, st)"

subsection \<open>Locations\<close>

text \<open>
  A raw location has \<open>name\<close>, \<open>path\<close> and \<open>params\<close>, each possibly absent.
\<close>

record matcher_location_raw =
  loc_name :: "route_record_name option"
  loc_path :: "string option"
  loc_params :: "path_params option"

record matcher_location =
  ml_name :: "route_record_name option"
  ml_path :: string
  ml_params :: path_params
  ml_matched :: "route_record_normalized list"
  ml_meta :: route_meta

datatype matcher_error = MATCHER_NOT_FOUND | STRINGIFY_FAILED

section \<open>resolve\<close>

definition assign :: "('k \<rightharpoonup> 'v) \<Rightarrow> ('k \<rightharpoonup> 'v) \<Rightarrow> ('k \<rightharpoonup> 'v)" where
  "assign target source = target ++ source"

text \<open>
  The property names of \<open>Object.prototype\<close>, which every plain object inherits
  (ECMAScript, with the accessor \<open>__proto__\<close> and the four methods of its Annex B).
\<close>

definition objectPrototypeNames :: "string list" where
  "objectPrototypeNames =
     [''constructor'', ''hasOwnProperty'', ''isPrototypeOf'', ''propertyIsEnumerable'',
      ''toLocaleString'', ''toString'', ''valueOf'', ''__proto__'', ''__defineGetter__'',
      ''__defineSetter__'', ''__lookupGetter__'', ''__lookupSetter__'']"

text \<open>\<open>key in params\<close>: an own property or an inherited one.\<close>

definition hasProperty :: "path_params \<Rightarrow> string \<Rightarrow> bool" where
  "hasProperty params key = (params key \<noteq> None \<or> key \<in> set objectPrototypeNames)"

text \<open>\<open>params[key]\<close>: the own property first, then the inherited one; \<open>None\<close> is \<open>undefined\<close>.\<close>

definition getProperty :: "path_params \<Rightarrow> string \<Rightarrow> param_value option" where
  "getProperty params key =
     (case params key of
        Some v \<Rightarrow> Some v
      | None \<Rightarrow> if key \<in> set objectPrototypeNames then Some (Inherited key) else None)"

text \<open>
  \<open>newParams[key] = value\<close> on an object made by \<open>{}\<close> and such assignments. It makes or
  overwrites the own property \<open>key\<close>, unless \<open>key\<close> is \<open>__proto__\<close>: that assignment calls
  the setter inherited from \<open>Object.prototype\<close> and makes no own property.
\<close>

definition setProperty :: "path_params \<Rightarrow> string \<Rightarrow> param_value option \<Rightarrow> path_params" where
  "setProperty newParams key v = (if key = ''__proto__'' then newParams else newParams(key := v))"

definition paramsFromLocation :: "path_params \<Rightarrow> string list \<Rightarrow> path_params" where
  "paramsFromLocation params ks =
     fold (\<lambda>key newParams.
             if hasProperty params key then setProperty newParams key (getProperty params key)
             else newParams)
       ks Map.empty"

definition mergeMetaFields :: "route_record_normalized list \<Rightarrow> route_meta" where
  "mergeMetaFields matched = foldl (\<lambda>meta r. assign meta (rec_meta r)) Map.empty matched"

text \<open>
  The loop \<open>while (parentMatcher) { matched.unshift(parentMatcher.record); parentMatcher
  = parentMatcher.parent }\<close>, with \<open>matched\<close> as the accumulator.
\<close>

fun matchedChain ::
  "route_record_matcher option \<Rightarrow> route_record_normalized list \<Rightarrow> route_record_normalized list"
where
  "matchedChain None matched = matched"
| "matchedChain (Some (RouteRecordMatcher i r p par)) matched = matchedChain par (r # matched)"

text \<open>The object \<open>resolve\<close> returns, from the four variables the branches set.\<close>

definition located ::
  "route_record_matcher option \<Rightarrow> route_record_name option \<Rightarrow> string \<Rightarrow> path_params
    \<Rightarrow> matcher_location"
where
  "located matcher name path params =
     (let matched = matchedChain matcher []
      in \<lparr>ml_name = name, ml_path = path, ml_params = params, ml_matched = matched,
          ml_meta = mergeMetaFields matched\<rparr>)"

definition requiredKeyNames :: "route_record_matcher \<Rightarrow> string list" where
  "requiredKeyNames matcher =
     map key_name (filter (\<lambda>k. \<not> key_optional k) (keys (mparser matcher)))"

definition keyNames :: "route_record_matcher \<Rightarrow> string list" where
  "keyNames matcher = map key_name (keys (mparser matcher))"

text \<open>
  The three branches of \<open>resolve\<close> set \<open>matcher\<close>, \<open>name\<close>, \<open>path\<close> and \<open>params\<close>, or
  throw; \<open>resolveTarget\<close> is that part, \<open>resolve\<close> adds the common end.
\<close>

definition resolveTarget ::
  "router_matcher \<Rightarrow> matcher_location_raw \<Rightarrow> matcher_location
    \<Rightarrow> matcher_error +
        (route_record_matcher option \<times> route_record_name option \<times> string \<times> path_params)"
where
  "resolveTarget st location currentLocation =
     (if truthy_name (loc_name location) then
        (case matcherMap st (the (loc_name location)) of
           None \<Rightarrow> Inl MATCHER_NOT_FOUND
         | Some matcher \<Rightarrow>
             (let params =
                    assign (paramsFromLocation (ml_params currentLocation) (requiredKeyNames matcher))
                      (case loc_params location of
                         None \<Rightarrow> Map.empty
                       | Some ps \<Rightarrow> paramsFromLocation ps (keyNames matcher))
              in case stringify (mparser matcher) params of
                   None \<Rightarrow> Inl STRINGIFY_FAILED
                 | Some path \<Rightarrow> Inr (Some matcher, rec_name (mrecord matcher), path, params)))
      else
        (case loc_path location of
           Some path \<Rightarrow>
             (case find (\<lambda>m. re_test (mparser m) path) (matchers st) of
                Some matcher \<Rightarrow>
                  Inr (Some matcher, rec_name (mrecord matcher), path,
                       the (parse (mparser matcher) path))
              | None \<Rightarrow> Inr (None, None, path, Map.empty))
         | None \<Rightarrow>
             (case (if truthy_name (ml_name currentLocation)
                    then matcherMap st (the (ml_name currentLocation))
                    else find (\<lambda>m. re_test (mparser m) (ml_path currentLocation)) (matchers st)) of
                None \<Rightarrow> Inl MATCHER_NOT_FOUND
              | Some matcher \<Rightarrow>
                  (let params =
                         assign (ml_params currentLocation)
                           (case loc_params location of None \<Rightarrow> Map.empty | Some ps \<Rightarrow> ps)
                   in case stringify (mparser matcher) params of
                        None \<Rightarrow> Inl STRINGIFY_FAILED
                      | Some path \<Rightarrow>
                          Inr (Some matcher, rec_name (mrecord matcher), path, params)))))"

definition resolve ::
  "router_matcher \<Rightarrow> matcher_location_raw \<Rightarrow> matcher_location
    \<Rightarrow> matcher_error + matcher_location"
where
  "resolve st location currentLocation =
     (case resolveTarget st location currentLocation of
        Inl e \<Rightarrow> Inl e
      | Inr (matcher, name, path, params) \<Rightarrow> Inr (located matcher name path params))"

text \<open>
  The chain the spec describes, "walking parent references from the target upward":
  the target first, the root last.
\<close>

fun parentsUpward :: "route_record_matcher \<Rightarrow> route_record_matcher list" where
  "parentsUpward (RouteRecordMatcher i r p par) =
     RouteRecordMatcher i r p par # (case par of None \<Rightarrow> [] | Some q \<Rightarrow> parentsUpward q)"

text \<open>
  The parameters a resolution by name gives, in the spec's words: the current
  location's values of the non-optional parameter names, overridden by the supplied
  parameters restricted to the declared names.
\<close>

definition mergedParams ::
  "route_record_matcher \<Rightarrow> matcher_location_raw \<Rightarrow> matcher_location \<Rightarrow> path_params"
where
  "mergedParams matcher location currentLocation =
     (ml_params currentLocation |` set (requiredKeyNames matcher)) ++
     ((case loc_params location of None \<Rightarrow> Map.empty | Some ps \<Rightarrow> ps) |` set (keyNames matcher))"

section \<open>Ranking and reachable registries\<close>








text \<open>
  The registries built with parents taken from the registry itself: a parent has a
  number the registry has given out. In them a child's number is above its parent's.
\<close>

definition childrenOrdered :: "router_matcher \<Rightarrow> bool" where
  "childrenOrdered st =
     (\<forall>p. \<forall>c\<in>set (children_of st p). p < mid c \<and> mid c < next_id st)"

inductive built :: "externals \<Rightarrow> router_matcher \<Rightarrow> bool" for ext :: externals where
  built_created: "built ext (emptyMatcher globalOpts)"
| built_added:
    "built ext st \<Longrightarrow> (case parent of None \<Rightarrow> True | Some p \<Rightarrow> mid p < next_id st) \<Longrightarrow>
     built ext (snd (addRoute ext r parent None st))"
| built_removed: "built ext st \<Longrightarrow> built ext (removeRoute ref st)"

section \<open>Example registries\<close>

text \<open>
  A pattern compiler for static paths and the pattern \<open>/users/:id\<close>, ranked by the
  number of their static characters; they stand for the imported compiler where a
  statement is evaluated. The registries below are written out, and are the ones
  \<open>createRouterMatcher\<close> builds from the routes named with them.
\<close>

definition staticParser :: "string \<Rightarrow> path_parser_options \<Rightarrow> path_parser" where
  "staticParser path options =
     \<lparr>keys = [],
      parse = (\<lambda>p. if p = path then Some Map.empty else None),
      stringify = (\<lambda>ps. Some path),
      score = [[int (length path)]]\<rparr>"

definition scoreCompare :: "path_parser \<Rightarrow> path_parser \<Rightarrow> int" where
  "scoreCompare a b = sum_list (concat (score b)) - sum_list (concat (score a))"

definition staticExternals :: externals where
  "staticExternals =
     \<lparr>tokensToParser = staticParser,
      comparePathParserScore = scoreCompare,
      linksChild = (\<lambda>r parentRecord. (rec_aliasOf r = None) = (rec_aliasOf parentRecord = None))\<rparr>"

definition userParser :: path_parser where
  "userParser =
     \<lparr>keys = [\<lparr>key_name = ''id'', key_optional = False, key_repeatable = False\<rparr>],
      parse = (\<lambda>p. if take 7 p = ''/users/'' \<and> drop 7 p \<noteq> []
                    then Some [''id'' \<mapsto> Single (drop 7 p)] else None),
      stringify = (\<lambda>ps. case ps ''id'' of Some (Single v) \<Rightarrow> Some (''/users/'' @ v) | _ \<Rightarrow> None),
      score = [[7]]\<rparr>"

definition exampleParser :: "string \<Rightarrow> path_parser_options \<Rightarrow> path_parser" where
  "exampleParser path options =
     (if path = ''/users/:id'' then userParser else staticParser path options)"

definition exampleExternals :: externals where
  "exampleExternals = staticExternals\<lparr>tokensToParser := exampleParser\<rparr>"

definition plainRecord :: "string \<Rightarrow> route_record_name option \<Rightarrow> route_record_normalized" where
  "plainRecord path name =
     \<lparr>rec_path = path, rec_redirect = None, rec_name = name, rec_meta = Map.empty,
      rec_aliasOf = None, rec_children = [], rec_components = Some [(''default'', ''View'')]\<rparr>"

definition defaultOptions :: path_parser_options where
  "defaultOptions = \<lparr>opt_strict = False, opt_end = True, opt_sensitive = False\<rparr>"

definition noRawOptions :: raw_path_options where
  "noRawOptions = \<lparr>raw_strict = None, raw_end = None, raw_sensitive = None\<rparr>"

definition leafRoute :: "string \<Rightarrow> string \<Rightarrow> route_record_raw list \<Rightarrow> route_record_raw" where
  "leafRoute path name cs =
     RouteRecordRaw path (Some (NameString name)) None None (ViewComponent ''View'') []
       noRawOptions cs"

definition groupRoute :: "string \<Rightarrow> route_record_raw list \<Rightarrow> route_record_raw" where
  "groupRoute path cs = RouteRecordRaw path None None None ViewAbsent [] noRawOptions cs"

definition aMatcher :: route_record_matcher where
  "aMatcher =
     RouteRecordMatcher 0 (plainRecord ''/a'' (Some (NameString ''a'')))
       (staticParser ''/a'' defaultOptions) None"

definition userMatcher :: route_record_matcher where
  "userMatcher =
     RouteRecordMatcher 0 (plainRecord ''/users/:id'' (Some (NameString ''user''))) userParser None"

definition userRegistry :: router_matcher where
  "userRegistry =
     \<lparr>globalOptions = \<lparr>opt_strict = False, opt_end = True, opt_sensitive = False\<rparr>,
      matchers = [userMatcher],
      matcherMap = [NameString ''user'' \<mapsto> userMatcher],
      children_of = (\<lambda>i. []),
      alias_of = (\<lambda>i. []),
      next_id = 1\<rparr>"

definition rootLocation :: matcher_location where
  "rootLocation =
     \<lparr>ml_name = None, ml_path = ''/'', ml_params = Map.empty, ml_matched = [],
      ml_meta = Map.empty\<rparr>"

definition userRequest :: matcher_location_raw where
  "userRequest =
     \<lparr>loc_name = Some (NameString ''user''), loc_path = None,
      loc_params = Some [''id'' \<mapsto> Single ''42'', ''stale'' \<mapsto> Single ''x'']\<rparr>"

definition meMatcher :: route_record_matcher where
  "meMatcher =
     RouteRecordMatcher 1 (plainRecord ''/users/me'' (Some (NameString ''me'')))
       (staticParser ''/users/me'' \<lparr>opt_strict = False, opt_end = True, opt_sensitive = False\<rparr>)
       None"

definition usersRegistry :: router_matcher where
  "usersRegistry =
     \<lparr>globalOptions = \<lparr>opt_strict = False, opt_end = True, opt_sensitive = False\<rparr>,
      matchers = [meMatcher, userMatcher],
      matcherMap = [NameString ''user'' \<mapsto> userMatcher, NameString ''me'' \<mapsto> meMatcher],
      children_of = (\<lambda>i. []),
      alias_of = (\<lambda>i. []),
      next_id = 2\<rparr>"

definition pathRequest :: "string \<Rightarrow> matcher_location_raw" where
  "pathRequest path = \<lparr>loc_name = None, loc_path = Some path, loc_params = None\<rparr>"

definition relativeRequest :: matcher_location_raw where
  "relativeRequest = \<lparr>loc_name = None, loc_path = None, loc_params = None\<rparr>"

definition staleLocation :: matcher_location where
  "staleLocation =
     \<lparr>ml_name = Some (NameString ''gone''), ml_path = ''/users/7'',
      ml_params = [''id'' \<mapsto> Single ''7''], ml_matched = [], ml_meta = Map.empty\<rparr>"

definition pageRoute :: route_record_raw where
  "pageRoute =
     RouteRecordRaw ''b'' (Some (NameString ''page'')) None (Some [''title'' \<mapsto> ''Child''])
       (ViewComponent ''View'') [] noRawOptions []"

definition layoutRoute :: route_record_raw where
  "layoutRoute =
     RouteRecordRaw ''/a'' None None (Some [''layout'' \<mapsto> ''main'', ''title'' \<mapsto> ''Parent''])
       (ViewComponent ''View'') [] noRawOptions [pageRoute]"

definition layoutMatcher :: route_record_matcher where
  "layoutMatcher =
     RouteRecordMatcher 0
       ((plainRecord ''/a'' None)
          \<lparr>rec_meta := [''layout'' \<mapsto> ''main'', ''title'' \<mapsto> ''Parent''],
           rec_children := [pageRoute]\<rparr>)
       (staticParser ''/a'' defaultOptions) None"

definition pageMatcher :: route_record_matcher where
  "pageMatcher =
     RouteRecordMatcher 1
       ((plainRecord ''/a/b'' (Some (NameString ''page'')))\<lparr>rec_meta := [''title'' \<mapsto> ''Child'']\<rparr>)
       (staticParser ''/a/b'' defaultOptions) (Some layoutMatcher)"

definition nestedRegistry :: router_matcher where
  "nestedRegistry =
     \<lparr>globalOptions = defaultOptions,
      matchers = [pageMatcher, layoutMatcher],
      matcherMap = [NameString ''page'' \<mapsto> pageMatcher],
      children_of = (\<lambda>i. [])(0 := [pageMatcher]),
      alias_of = (\<lambda>i. []),
      next_id = 2\<rparr>"

definition emptyRegistry :: router_matcher where
  "emptyRegistry = emptyMatcher noRawOptions"

definition groupRegistry :: router_matcher where
  "groupRegistry =
     snd (addRoute staticExternals (groupRoute ''/g'' [leafRoute ''x'' ''x'' []]) None None
            emptyRegistry)"

definition groupMatcher :: route_record_matcher where
  "groupMatcher =
     RouteRecordMatcher 0
       \<lparr>rec_path = ''/g'', rec_redirect = None, rec_name = None, rec_meta = Map.empty,
        rec_aliasOf = None, rec_children = [leafRoute ''x'' ''x'' []], rec_components = None\<rparr>
       (staticParser ''/g'' defaultOptions) None"

definition nestedGroupRoute :: route_record_raw where
  "nestedGroupRoute = leafRoute ''/a'' ''a'' [groupRoute ''g'' [leafRoute ''x'' ''x'' []]]"

definition nestedGroupRegistry :: router_matcher where
  "nestedGroupRegistry = createRouterMatcher staticExternals [nestedGroupRoute] noRawOptions"

definition nameRequest :: "string \<Rightarrow> matcher_location_raw" where
  "nameRequest name = \<lparr>loc_name = Some (NameString name), loc_path = None, loc_params = None\<rparr>"

definition aRegistry :: router_matcher where
  "aRegistry =
     \<lparr>globalOptions = defaultOptions,
      matchers = [aMatcher],
      matcherMap = [NameString ''a'' \<mapsto> aMatcher],
      children_of = (\<lambda>i. []),
      alias_of = (\<lambda>i. []),
      next_id = 1\<rparr>"

















text \<open>
  The pattern \<open>/:toString\<close>, with the one required parameter \<open>toString\<close>. Its \<open>stringify\<close>
  reads the parameter as \<open>params[key]\<close> and appends its text; the text of an inherited
  function is its source text.
\<close>

definition memberParser :: path_parser where
  "memberParser =
     \<lparr>keys = [\<lparr>key_name = ''toString'', key_optional = False, key_repeatable = False\<rparr>],
      parse = (\<lambda>p. if take 1 p = ''/'' \<and> drop 1 p \<noteq> [] \<and> CHR ''/'' \<notin> set (drop 1 p)
                    then Some [''toString'' \<mapsto> Single (drop 1 p)] else None),
      stringify =
        (\<lambda>ps. case getProperty ps ''toString'' of
                 Some (Single v) \<Rightarrow> if v = [] then None else Some (''/'' @ v)
               | Some (Inherited n) \<Rightarrow> Some (''/function '' @ n @ ''() { [native code] }'')
               | _ \<Rightarrow> None),
      score = [[1]]\<rparr>"

definition memberExternals :: externals where
  "memberExternals =
     staticExternals
       \<lparr>tokensToParser :=
          (\<lambda>path options. if path = ''/:toString'' then memberParser
                           else staticParser path options)\<rparr>"

definition memberMatcher :: route_record_matcher where
  "memberMatcher =
     RouteRecordMatcher 0 (plainRecord ''/:toString'' (Some (NameString ''t''))) memberParser None"

definition memberRegistry :: router_matcher where
  "memberRegistry =
     createRouterMatcher memberExternals [leafRoute ''/:toString'' ''t'' []] noRawOptions"

definition userLocation :: matcher_location where
  "userLocation =
     \<lparr>ml_name = Some (NameString ''user''), ml_path = ''/users/7'',
      ml_params = [''id'' \<mapsto> Single ''7'', ''tab'' \<mapsto> Single ''posts''], ml_matched = [],
      ml_meta = Map.empty\<rparr>"

definition staleRequest :: matcher_location_raw where
  "staleRequest =
     \<lparr>loc_name = Some (NameString ''user''), loc_path = None,
      loc_params = Some [''stale'' \<mapsto> Single ''x'']\<rparr>"

definition namedRequest :: "route_record_name \<Rightarrow> path_params option \<Rightarrow> matcher_location_raw" where
  "namedRequest name params = \<lparr>loc_name = Some name, loc_path = None, loc_params = params\<rparr>"

section \<open>The example registries are built by the operations\<close>

text \<open>
  The loop body of \<open>addRecords\<close> with the three results of \<open>openRecord\<close> as
  projections, for evaluation.
\<close>

lemma addRecords_Cons:
  "addRecords ext r isRootAdd parent options (normalizedRecord # rest) originalRecord
     originalMatcher st =
   addRecords ext r isRootAdd parent options rest
     (case originalRecord of
        Some orig \<Rightarrow> Some orig
      | None \<Rightarrow>
          Some (fst (openRecord ext r isRootAdd parent options normalizedRecord originalRecord
                       originalMatcher st)))
     (fst (snd (openRecord ext r isRootAdd parent options normalizedRecord originalRecord
                  originalMatcher st)))
     (closeRecord ext
        (fst (openRecord ext r isRootAdd parent options normalizedRecord originalRecord
                originalMatcher st))
        (addChildren ext (raw_children r) 0
           (fst (openRecord ext r isRootAdd parent options normalizedRecord originalRecord
                   originalMatcher st))
           originalRecord
           (snd (snd (openRecord ext r isRootAdd parent options normalizedRecord originalRecord
                        originalMatcher st)))))"
  by (simp add: case_prod_beta)
lemmas eval_simps =
  openRecord_def closeRecord_def createRouteRecordMatcher_def normalizedRecords_def
  normalizeRouteRecord_def mergeOptions_def insertMatcher_def hasRenderTarget_def
  emptyMatcher_def staticExternals_def staticParser_def scoreCompare_def startsWithSlash_def
  joinPath_def originalChild_def Let_def leafRoute_def groupRoute_def noRawOptions_def
  emptyRegistry_def defaultOptions_def isRecordChildOf.simps addRoute.simps addRecords_Cons
  createRouterMatcher_def exampleExternals_def exampleParser_def

lemma userRegistry_built:
  "createRouterMatcher exampleExternals [leafRoute ''/users/:id'' ''user'' []] noRawOptions =
     userRegistry"
  by (simp add: eval_simps userRegistry_def userMatcher_def plainRecord_def userParser_def
      del: addRecords.simps(2))
    (auto simp: fun_eq_iff)

lemma usersRegistry_built:
  "createRouterMatcher exampleExternals
     [leafRoute ''/users/:id'' ''user'' [], leafRoute ''/users/me'' ''me'' []] noRawOptions =
     usersRegistry"
  by (simp add: eval_simps usersRegistry_def userMatcher_def meMatcher_def plainRecord_def
      userParser_def del: addRecords.simps(2))
    (auto simp: fun_eq_iff)

lemma nestedRegistry_built:
  "createRouterMatcher staticExternals [layoutRoute] noRawOptions = nestedRegistry"
  by (simp add: eval_simps nestedRegistry_def layoutRoute_def pageRoute_def layoutMatcher_def
      pageMatcher_def plainRecord_def del: addRecords.simps(2))
    (auto simp: fun_eq_iff)

lemma aRegistry_built:
  "createRouterMatcher staticExternals [leafRoute ''/a'' ''a'' []] noRawOptions = aRegistry"
  by (simp add: eval_simps aRegistry_def aMatcher_def plainRecord_def del: addRecords.simps(2))
    (auto simp: fun_eq_iff)

section \<open>Properties of resolve\<close>

lemma paramsFromLocation_apply:
  "paramsFromLocation params ks k =
     (if k \<in> set ks \<and> k \<noteq> ''__proto__'' then getProperty params k else None)"
proof -
  have "fold (\<lambda>key newParams.
                if hasProperty params key then setProperty newParams key (getProperty params key)
                else newParams) ks acc k =
          (if k \<in> set ks \<and> k \<noteq> ''__proto__'' then getProperty params k else acc k)"
    if "\<And>k. acc k \<noteq> None \<Longrightarrow> acc k = getProperty params k" for acc
    using that
  proof (induction ks arbitrary: acc)
    case Nil
    then show ?case by simp
  next
    case (Cons a ks)
    let ?acc = "if hasProperty params a then setProperty acc a (getProperty params a) else acc"
    have "\<And>k. ?acc k \<noteq> None \<Longrightarrow> ?acc k = getProperty params k"
      using Cons.prems by (auto simp: setProperty_def split: if_splits)
    from Cons.IH [OF this] show ?case
      using Cons.prems [of k]
      by (cases "acc k")
        (auto simp: setProperty_def hasProperty_def getProperty_def split: if_splits option.splits)
  qed
  from this [of Map.empty] show ?thesis
    by (simp add: paramsFromLocation_def)
qed

lemma paramsFromLocation_restrict:
  assumes "\<forall>k\<in>set ks. k \<notin> set objectPrototypeNames"
  shows "paramsFromLocation params ks = params |` set ks"
proof
  fix k
  have "''__proto__'' \<in> set objectPrototypeNames"
    by (simp add: objectPrototypeNames_def)
  with assms show "paramsFromLocation params ks k = (params |` set ks) k"
    by (auto simp: paramsFromLocation_apply getProperty_def restrict_map_def split: option.splits)
qed

lemma mergeMetaFields_deepest_aux:
  "foldl (\<lambda>meta r. assign meta (rec_meta r)) acc rs k =
     (case find (\<lambda>r. rec_meta r k \<noteq> None) (rev rs) of
        None \<Rightarrow> acc k
      | Some r \<Rightarrow> rec_meta r k)"
  by (induction rs rule: rev_induct) (auto simp: assign_def map_add_def split: option.splits)

lemma matchedChain_upward:
  "matchedChain (Some m) acc = rev (map mrecord (parentsUpward m)) @ acc"
proof (induction m arbitrary: acc)
  case (RouteRecordMatcher i r p par)
  then show ?case by (cases par) auto
qed

lemma resolve_by_name_eq:
  assumes "truthy_name (loc_name location)"
    and "matcherMap st (the (loc_name location)) = Some matcher"
    and "\<forall>k\<in>set (keyNames matcher). k \<notin> set objectPrototypeNames"
  shows "resolve st location currentLocation =
     (case stringify (mparser matcher) (mergedParams matcher location currentLocation) of
        None \<Rightarrow> Inl STRINGIFY_FAILED
      | Some path \<Rightarrow>
          Inr (located (Some matcher) (rec_name (mrecord matcher)) path
                 (mergedParams matcher location currentLocation)))"
proof -
  have "\<forall>k\<in>set (requiredKeyNames matcher). k \<notin> set objectPrototypeNames"
    using assms(3) by (auto simp: requiredKeyNames_def keyNames_def)
  with assms show ?thesis
    by (simp add: resolve_def resolveTarget_def paramsFromLocation_restrict assign_def
        mergedParams_def Let_def split: option.splits)
qed

lemma mergedParams_undeclared:
  "k \<notin> set (keyNames matcher) \<Longrightarrow> mergedParams matcher location currentLocation k = None"
  by (auto simp: mergedParams_def map_add_def restrict_map_def requiredKeyNames_def
      keyNames_def split: option.splits)

lemma mergedParams_restrict_supplied:
  "mergedParams matcher
     (location\<lparr>loc_params :=
        Some ((case loc_params location of None \<Rightarrow> Map.empty | Some ps \<Rightarrow> ps)
                |` set (keyNames matcher))\<rparr>) currentLocation =
   mergedParams matcher location currentLocation"
  by (simp add: mergedParams_def)

lemma memberRegistry_built:
  "memberRegistry =
     \<lparr>globalOptions = defaultOptions,
      matchers = [memberMatcher],
      matcherMap = [NameString ''t'' \<mapsto> memberMatcher],
      children_of = (\<lambda>i. []),
      alias_of = (\<lambda>i. []),
      next_id = 1\<rparr>"
  by (simp add: memberRegistry_def memberMatcher_def memberExternals_def plainRecord_def
      eval_simps del: addRecords.simps(2)) (auto simp: fun_eq_iff)

text \<open>
  Claim C1 at a failing input. The route \<open>/:toString\<close> named \<open>t\<close> declares the required
  parameter \<open>toString\<close>. Resolving the name \<open>t\<close> with no supplied params from a current
  location whose params are empty, the merge the claim describes is empty; the code
  tests \<open>key in params\<close>, which holds of the member \<open>toString\<close> every object inherits, and
  the result's params hold that inherited function under \<open>toString\<close>.
\<close>

theorem resolve_by_name_copies_inherited_member:
  "matcherMap memberRegistry (NameString ''t'') = Some memberMatcher \<and>
   requiredKeyNames memberMatcher = [''toString''] \<and>
   ml_params rootLocation = Map.empty \<and>
   loc_params (nameRequest ''t'') = None \<and>
   mergedParams memberMatcher (nameRequest ''t'') rootLocation = Map.empty \<and>
   (case resolve memberRegistry (nameRequest ''t'') rootLocation of
      Inl e \<Rightarrow> None
    | Inr result \<Rightarrow> Some (ml_params result)) = Some [''toString'' \<mapsto> Inherited ''toString'']"
  by (simp add: memberRegistry_built memberMatcher_def memberParser_def nameRequest_def
      rootLocation_def mergedParams_def requiredKeyNames_def keyNames_def resolve_def
      resolveTarget_def paramsFromLocation_def hasProperty_def getProperty_def setProperty_def
      objectPrototypeNames_def assign_def located_def Let_def)

text \<open>
  Claim C2, as stated, fails: a relative resolution whose current location has a name
  that is not in the name table raises \<open>MATCHER_NOT_FOUND\<close> although a registered
  matcher's expression matches the current path.
\<close>

theorem resolve_not_found_counterexample:
  "createRouterMatcher exampleExternals
     [leafRoute ''/users/:id'' ''user'' [], leafRoute ''/users/me'' ''me'' []] noRawOptions =
     usersRegistry \<and>
   resolve usersRegistry relativeRequest staleLocation = Inl MATCHER_NOT_FOUND \<and>
   \<not> truthy_name (loc_name relativeRequest) \<and>
   \<not> (matcherMap usersRegistry (the (ml_name staleLocation)) = None \<and>
      \<not> list_ex (\<lambda>m. re_test (mparser m) (ml_path staleLocation)) (matchers usersRegistry))"
  using usersRegistry_built
  by (simp add: resolve_def resolveTarget_def usersRegistry_def relativeRequest_def
      staleLocation_def re_test_def userMatcher_def userParser_def meMatcher_def staticParser_def)

lemma resolve_Inl_iff:
  "resolve st location currentLocation = Inl e \<longleftrightarrow>
   resolveTarget st location currentLocation = Inl e"
  by (simp add: resolve_def split: sum.splits prod.splits)

lemma find_None_list_ex: "find P xs = None \<longleftrightarrow> \<not> list_ex P xs"
  by (auto simp: find_None_iff list_ex_iff)

text \<open>
  Claim C2, amended. \<open>resolve\<close> raises \<open>MATCHER_NOT_FOUND\<close> exactly when a resolution by
  name is given a name absent from the name table, or a relative resolution (neither a
  name nor a path) cannot re-match the current location: the current location has a
  name and that name is absent from the name table, or it has no name and no
  registered matcher's expression matches its path. The error is the result of
  \<open>resolve\<close>, so it reaches the caller.
\<close>

theorem resolve_not_found_iff:
  "resolve st location currentLocation = Inl MATCHER_NOT_FOUND \<longleftrightarrow>
     (truthy_name (loc_name location) \<and> matcherMap st (the (loc_name location)) = None) \<or>
     (\<not> truthy_name (loc_name location) \<and> loc_path location = None \<and>
      (if truthy_name (ml_name currentLocation)
       then matcherMap st (the (ml_name currentLocation)) = None
       else \<not> list_ex (\<lambda>m. re_test (mparser m) (ml_path currentLocation)) (matchers st)))"
proof (cases "truthy_name (loc_name location)")
  case True
  then show ?thesis
    by (simp add: resolve_Inl_iff resolveTarget_def Let_def split: option.splits)
next
  case named: False
  show ?thesis
  proof (cases "loc_path location")
    case (Some path)
    with named show ?thesis
      by (simp add: resolve_Inl_iff resolveTarget_def split: option.splits)
  next
    case None
    show ?thesis
    proof (cases "truthy_name (ml_name currentLocation)")
      case True
      with named None show ?thesis
        by (simp add: resolve_Inl_iff resolveTarget_def Let_def split: option.splits)
    next
      case False
      with named None show ?thesis
        by (simp add: resolve_Inl_iff resolveTarget_def Let_def find_None_list_ex [symmetric]
            split: option.splits)
    qed
  qed
qed

text \<open>
  Claim C3. For a resolve request by literal path: when a matcher's expression matches,
  the name, the params (by that matcher's \<open>parse\<close>) and the matched chain are those of
  the first such matcher of the ordered sequence; when none matches, \<open>resolve\<close> raises
  nothing and returns the raw path with empty params, an empty matched chain and empty
  meta.
\<close>

theorem resolve_by_path_first_match:
  assumes "\<not> truthy_name (loc_name location)"
    and "loc_path location = Some path"
  shows "(\<forall>i. i < length (matchers st) \<and> re_test (mparser (matchers st ! i)) path \<and>
              (\<forall>j<i. \<not> re_test (mparser (matchers st ! j)) path) \<longrightarrow>
            (\<exists>result. resolve st location currentLocation = Inr result \<and>
               ml_name result = rec_name (mrecord (matchers st ! i)) \<and>
               parse (mparser (matchers st ! i)) path = Some (ml_params result) \<and>
               ml_path result = path \<and>
               ml_matched result = rev (map mrecord (parentsUpward (matchers st ! i))))) \<and>
         (\<not> list_ex (\<lambda>m. re_test (mparser m) path) (matchers st) \<longrightarrow>
            resolve st location currentLocation =
              Inr \<lparr>ml_name = None, ml_path = path, ml_params = Map.empty, ml_matched = [],
                   ml_meta = Map.empty\<rparr>)"
proof (intro conjI allI impI)
  fix i
  assume i: "i < length (matchers st) \<and> re_test (mparser (matchers st ! i)) path \<and>
              (\<forall>j<i. \<not> re_test (mparser (matchers st ! j)) path)"
  then have "find (\<lambda>m. re_test (mparser m) path) (matchers st) = Some (matchers st ! i)"
    by (auto simp: find_Some_iff)
  moreover from i obtain ps where "parse (mparser (matchers st ! i)) path = Some ps"
    by (auto simp: re_test_def)
  ultimately show "\<exists>result. resolve st location currentLocation = Inr result \<and>
               ml_name result = rec_name (mrecord (matchers st ! i)) \<and>
               parse (mparser (matchers st ! i)) path = Some (ml_params result) \<and>
               ml_path result = path \<and>
               ml_matched result = rev (map mrecord (parentsUpward (matchers st ! i)))"
    using assms
    by (simp add: resolve_def resolveTarget_def located_def Let_def matchedChain_upward)
next
  assume "\<not> list_ex (\<lambda>m. re_test (mparser m) path) (matchers st)"
  then have "find (\<lambda>m. re_test (mparser m) path) (matchers st) = None"
    by (auto simp: find_None_iff list_ex_iff)
  then show "resolve st location currentLocation =
              Inr \<lparr>ml_name = None, ml_path = path, ml_params = Map.empty, ml_matched = [],
                   ml_meta = Map.empty\<rparr>"
    using assms
    by (simp add: resolve_def resolveTarget_def located_def Let_def mergeMetaFields_def)
qed

lemma usersRegistry_matchers: "matchers usersRegistry = [meMatcher, userMatcher]"
  by (simp add: usersRegistry_def)

lemma re_test_examples:
  "re_test (mparser meMatcher) ''/users/me''"
  "re_test (mparser userMatcher) ''/users/me''"
  "\<not> re_test (mparser meMatcher) ''/users/42''"
  "re_test (mparser userMatcher) ''/users/42''"
  "\<not> re_test (mparser meMatcher) ''/nowhere''"
  "\<not> re_test (mparser userMatcher) ''/nowhere''"
  by (simp_all add: re_test_def meMatcher_def userMatcher_def staticParser_def userParser_def)

theorem resolve_by_path_first_match_witness:
  "createRouterMatcher exampleExternals
     [leafRoute ''/users/:id'' ''user'' [], leafRoute ''/users/me'' ''me'' []] noRawOptions =
     usersRegistry \<and>
   (\<exists>result. resolve usersRegistry (pathRequest ''/users/me'') rootLocation = Inr result \<and>
      ml_name result = Some (NameString ''me'') \<and> ml_path result = ''/users/me'') \<and>
   (\<exists>result. resolve usersRegistry (pathRequest ''/users/42'') rootLocation = Inr result \<and>
      ml_name result = Some (NameString ''user'') \<and>
      ml_params result ''id'' = Some (Single ''42'')) \<and>
   resolve usersRegistry (pathRequest ''/nowhere'') rootLocation =
     Inr \<lparr>ml_name = None, ml_path = ''/nowhere'', ml_params = Map.empty, ml_matched = [],
          ml_meta = Map.empty\<rparr>"
proof -
  have h1: "\<not> truthy_name (loc_name (pathRequest p))" for p
    by (simp add: pathRequest_def)
  have h2: "loc_path (pathRequest p) = Some p" for p
    by (simp add: pathRequest_def)
  note t = resolve_by_path_first_match
    [where st = usersRegistry and currentLocation = rootLocation, OF h1 h2]
  have "0 < length (matchers usersRegistry) \<and>
        re_test (mparser (matchers usersRegistry ! 0)) ''/users/me'' \<and>
        (\<forall>j<0. \<not> re_test (mparser (matchers usersRegistry ! j)) ''/users/me'')"
    by (simp add: usersRegistry_matchers re_test_examples)
  with t [of "''/users/me''"] have a:
    "\<exists>result. resolve usersRegistry (pathRequest ''/users/me'') rootLocation = Inr result \<and>
      ml_name result = Some (NameString ''me'') \<and> ml_path result = ''/users/me''"
    by (fastforce simp: usersRegistry_matchers meMatcher_def plainRecord_def)
  have "1 < length (matchers usersRegistry) \<and>
        re_test (mparser (matchers usersRegistry ! 1)) ''/users/42'' \<and>
        (\<forall>j<1. \<not> re_test (mparser (matchers usersRegistry ! j)) ''/users/42'')"
    by (simp add: usersRegistry_matchers re_test_examples)
  with t [of "''/users/42''"] obtain result where
    r: "resolve usersRegistry (pathRequest ''/users/42'') rootLocation = Inr result"
      "ml_name result = rec_name (mrecord (matchers usersRegistry ! 1))"
      "parse (mparser (matchers usersRegistry ! 1)) ''/users/42'' = Some (ml_params result)"
    by blast
  from r(2) have n: "ml_name result = Some (NameString ''user'')"
    by (simp add: usersRegistry_matchers userMatcher_def plainRecord_def)
  from r(3) have "ml_params result = [''id'' \<mapsto> Single ''42'']"
    by (simp add: usersRegistry_matchers userMatcher_def userParser_def)
  then have "ml_params result ''id'' = Some (Single ''42'')"
    by simp
  with r(1) n have b:
    "\<exists>result. resolve usersRegistry (pathRequest ''/users/42'') rootLocation = Inr result \<and>
      ml_name result = Some (NameString ''user'') \<and>
      ml_params result ''id'' = Some (Single ''42'')"
    by blast
  have "\<not> list_ex (\<lambda>m. re_test (mparser m) ''/nowhere'') (matchers usersRegistry)"
    by (simp add: usersRegistry_matchers re_test_examples)
  with t [of "''/nowhere''"] have c:
    "resolve usersRegistry (pathRequest ''/nowhere'') rootLocation =
     Inr \<lparr>ml_name = None, ml_path = ''/nowhere'', ml_params = Map.empty, ml_matched = [],
          ml_meta = Map.empty\<rparr>"
    by blast
  from a b c usersRegistry_built show ?thesis by blast
qed

text \<open>
  Claim C7. When \<open>resolve\<close> locates a target matcher, \<open>matched\<close> is the chain of records
  from walking the parent references upward from the target, in root-to-leaf order;
  \<open>meta\<close> is the left-to-right fold of the matched records' meta, so for every key the
  value is that of the deepest record of the chain that has the key.
\<close>

theorem resolve_matched_chain_and_meta:
  assumes "resolveTarget st location currentLocation = Inr (Some matcher, name, path, params)"
  shows "\<exists>result. resolve st location currentLocation = Inr result \<and>
           ml_matched result = rev (map mrecord (parentsUpward matcher)) \<and>
           ml_meta result = foldl (\<lambda>meta r. meta ++ rec_meta r) Map.empty (ml_matched result) \<and>
           (\<forall>k. ml_meta result k =
              (case find (\<lambda>m. rec_meta (mrecord m) k \<noteq> None) (parentsUpward matcher) of
                 None \<Rightarrow> None
               | Some m \<Rightarrow> rec_meta (mrecord m) k))"
proof -
  let ?result = "located (Some matcher) name path params"
  have r: "resolve st location currentLocation = Inr ?result"
    using assms by (simp add: resolve_def)
  have m: "ml_matched ?result = rev (map mrecord (parentsUpward matcher))"
    by (simp add: located_def Let_def matchedChain_upward)
  have f: "ml_meta ?result = foldl (\<lambda>meta r. meta ++ rec_meta r) Map.empty (ml_matched ?result)"
    by (simp add: located_def Let_def mergeMetaFields_def assign_def)
  have "ml_meta ?result k =
          (case find (\<lambda>m. rec_meta (mrecord m) k \<noteq> None) (parentsUpward matcher) of
             None \<Rightarrow> None
           | Some m \<Rightarrow> rec_meta (mrecord m) k)" for k
  proof -
    have "find (\<lambda>r. rec_meta r k \<noteq> None) (map mrecord ms) =
          map_option mrecord (find (\<lambda>m. rec_meta (mrecord m) k \<noteq> None) ms)" for ms
      by (induction ms) auto
    then show ?thesis
      by (simp add: located_def Let_def mergeMetaFields_def mergeMetaFields_deepest_aux
          matchedChain_upward split: option.splits)
  qed
  with r m f show ?thesis by blast
qed

theorem resolve_matched_chain_and_meta_witness:
  "createRouterMatcher staticExternals [layoutRoute] noRawOptions = nestedRegistry \<and>
   resolveTarget nestedRegistry (pathRequest ''/a/b'') rootLocation =
     Inr (Some pageMatcher, Some (NameString ''page''), ''/a/b'', Map.empty) \<and>
   (\<exists>result. resolve nestedRegistry (pathRequest ''/a/b'') rootLocation = Inr result \<and>
      map rec_path (ml_matched result) = [''/a'', ''/a/b''] \<and>
      ml_meta result ''title'' = Some ''Child'' \<and>
      ml_meta result ''layout'' = Some ''main'')"
proof -
  have h: "resolveTarget nestedRegistry (pathRequest ''/a/b'') rootLocation =
     Inr (Some pageMatcher, Some (NameString ''page''), ''/a/b'', Map.empty)"
    by (simp add: resolveTarget_def nestedRegistry_def pathRequest_def re_test_def
        pageMatcher_def staticParser_def plainRecord_def)
  have up: "parentsUpward pageMatcher = [pageMatcher, layoutMatcher]"
    by (simp add: pageMatcher_def layoutMatcher_def)
  from resolve_matched_chain_and_meta [OF h] obtain result where
    r: "resolve nestedRegistry (pathRequest ''/a/b'') rootLocation = Inr result"
    and m: "ml_matched result = rev (map mrecord (parentsUpward pageMatcher))"
    and k: "\<And>k. ml_meta result k =
              (case find (\<lambda>m. rec_meta (mrecord m) k \<noteq> None) (parentsUpward pageMatcher) of
                 None \<Rightarrow> None
               | Some m \<Rightarrow> rec_meta (mrecord m) k)"
    by blast
  from m have "map rec_path (ml_matched result) = [''/a'', ''/a/b'']"
    by (simp add: up pageMatcher_def layoutMatcher_def plainRecord_def)
  moreover from k [of "''title''"] have "ml_meta result ''title'' = Some ''Child''"
    by (simp add: up pageMatcher_def layoutMatcher_def plainRecord_def)
  moreover from k [of "''layout''"] have "ml_meta result ''layout'' = Some ''main''"
    by (simp add: up pageMatcher_def layoutMatcher_def plainRecord_def)
  ultimately show ?thesis using h r nestedRegistry_built by simp
qed

section \<open>Properties of the registry operations\<close>

lemma indexOf_None_iff: "indexOf xs m = None \<longleftrightarrow> mid m \<notin> mid ` set xs"
  by (induction xs) auto

text \<open>
  Claim C9, as stated, fails: \<open>getRoutes\<close> returns the array \<open>matchers\<close> itself. Read through
  the value \<open>getRoutes\<close> returned, the sequence is empty before and has the new matcher
  after a later \<open>addRoute\<close>.
\<close>

theorem getRoutes_live_reference_counterexample:
  "read_array (snd (getRoutes emptyRegistry)) (fst (getRoutes emptyRegistry)) = [] \<and>
   map (\<lambda>m. rec_path (mrecord m))
     (read_array
        (snd (addRoute staticExternals (leafRoute ''/a'' ''a'' []) None None
                (snd (getRoutes emptyRegistry))))
        (fst (getRoutes emptyRegistry))) = [''/a'']"
  by (simp add: getRoutes_def eval_simps del: addRecords.simps(2))

text \<open>
  Claim C9, amended. \<open>getRoutes\<close> and \<open>getRecordMatcher\<close> never modify the registry state;
  \<open>getRecordMatcher\<close> gives the name table's entry; and \<open>getRoutes\<close> returns the registry's
  own ordered sequence, not a snapshot: read in any later state, after any \<open>addRoute\<close>
  or \<open>removeRoute\<close>, it is the ordered sequence of that state.
\<close>

theorem accessors_read_only:
  "snd (getRoutes st) = st \<and>
   snd (getRecordMatcher name st) = st \<and>
   fst (getRecordMatcher name st) = matcherMap st name \<and>
   (\<forall>st'. read_array st' (fst (getRoutes st)) = matchers st')"
  by (simp add: getRoutes_def getRecordMatcher_def)

text \<open>
  Claim C10. \<open>removeRoute\<close> with a matcher that is not in the ordered sequence leaves
  the registry unchanged: its name-table entry, its children and its aliases stay. The
  example is the de-registration callback of a pass-through root record, which leaves
  the record's inserted child in the sequence and in the name table.
\<close>

theorem removeRoute_absent_matcher_unchanged:
  assumes "mid matcherRef \<notin> mid ` set (matchers st)"
  shows "removeRoute (RefMatcher matcherRef) st = st"
  using assms by (simp add: indexOf_None_iff [symmetric])

theorem removeRoute_absent_matcher_unchanged_witness:
  "fst (addRoute staticExternals (groupRoute ''/g'' [leafRoute ''x'' ''x'' []]) None None
          emptyRegistry) = Some groupMatcher \<and>
   mid groupMatcher \<notin> mid ` set (matchers groupRegistry) \<and>
   removeRoute (RefMatcher groupMatcher) groupRegistry = groupRegistry \<and>
   map (\<lambda>m. rec_path (mrecord m)) (matchers groupRegistry) = [''/g/x''] \<and>
   map (\<lambda>m. rec_path (mrecord m)) (children_of groupRegistry (mid groupMatcher)) = [''/g/x''] \<and>
   map_option (\<lambda>m. rec_path (mrecord m)) (matcherMap groupRegistry (NameString ''x'')) =
     Some ''/g/x''"
proof -
  have a: "fst (addRoute staticExternals (groupRoute ''/g'' [leafRoute ''x'' ''x'' []]) None None
          emptyRegistry) = Some groupMatcher"
    by (simp add: eval_simps groupMatcher_def del: addRecords.simps(2))
  have b: "mid groupMatcher \<notin> mid ` set (matchers groupRegistry)"
    by (simp add: eval_simps groupMatcher_def groupRegistry_def del: addRecords.simps(2))
  have c: "map (\<lambda>m. rec_path (mrecord m)) (matchers groupRegistry) = [''/g/x'']"
    "map (\<lambda>m. rec_path (mrecord m)) (children_of groupRegistry (mid groupMatcher)) = [''/g/x'']"
    "map_option (\<lambda>m. rec_path (mrecord m)) (matcherMap groupRegistry (NameString ''x'')) =
       Some ''/g/x''"
    by (simp_all add: eval_simps groupMatcher_def groupRegistry_def del: addRecords.simps(2))
  from a b c removeRoute_absent_matcher_unchanged [OF b] show ?thesis
    by simp
qed

text \<open>
  Claim C5 at a failing input. The registry of the route \<open>/a\<close> named \<open>a\<close>, whose child
  \<open>g\<close> displays nothing and has the child \<open>x\<close> named \<open>x\<close>, holds the matchers of
  \<open>/a/g/x\<close> and \<open>/a\<close>; the first is a descendant of the second. \<open>removeRoute\<close> of the
  name \<open>a\<close> removes \<open>/a\<close> and stops at \<open>g\<close>, which is not in the sequence: \<open>/a/g/x\<close>
  stays, and resolving the name \<open>x\<close> still succeeds.
\<close>

theorem removeRoute_cascade_skips_group_subtree:
  "map (\<lambda>m. (mid m, rec_path (mrecord m))) (matchers nestedGroupRegistry) =
     [(2, ''/a/g/x''), (0, ''/a'')] \<and>
   isRecordChildOf nestedGroupRegistry (matchers nestedGroupRegistry ! 0)
     (matchers nestedGroupRegistry ! 1) \<and>
   map (\<lambda>m. (mid m, rec_path (mrecord m)))
     (matchers (removeRoute (RefName (NameString ''a'')) nestedGroupRegistry)) =
     [(2, ''/a/g/x'')] \<and>
   (\<exists>result.
      resolve (removeRoute (RefName (NameString ''a'')) nestedGroupRegistry) (nameRequest ''x'')
        rootLocation = Inr result \<and>
      ml_path result = ''/a/g/x'')"
  by (simp add: nestedGroupRegistry_def nestedGroupRoute_def eval_simps
      resolve_def resolveTarget_def nameRequest_def located_def assign_def rootLocation_def
      paramsFromLocation_def requiredKeyNames_def keyNames_def del: addRecords.simps(2))

text \<open>
  Claim C4 at a failing input. Adding a route \<open>/b\<close> under the name \<open>a\<close> to the same
  registry replaces the name's matcher, but the old record's subtree is not all
  removed: the matcher of \<open>/a/g/x\<close> stays in the sequence and in the name table.
\<close>

theorem addRoute_replace_keeps_group_subtree:
  "map (\<lambda>m. (mid m, rec_path (mrecord m)))
     (matchers (snd (addRoute staticExternals (leafRoute ''/b'' ''a'' []) None None
                       nestedGroupRegistry))) =
     [(2, ''/a/g/x''), (3, ''/b'')] \<and>
   map_option mid
     (matcherMap (snd (addRoute staticExternals (leafRoute ''/b'' ''a'' []) None None
                         nestedGroupRegistry)) (NameString ''a'')) = Some 3 \<and>
   map_option mid
     (matcherMap (snd (addRoute staticExternals (leafRoute ''/b'' ''a'' []) None None
                         nestedGroupRegistry)) (NameString ''x'')) = Some 2"
  by (simp add: nestedGroupRegistry_def nestedGroupRoute_def eval_simps del: addRecords.simps(2))









lemma insertIndex_le: "insertIndex ext st m ms \<le> length ms"
  by (induction ms) auto










lemma insertMatcher_matchers:
  "matchers (insertMatcher ext m st) =
     take (insertIndex ext st m (matchers st)) (matchers st) @
     m # drop (insertIndex ext st m (matchers st)) (matchers st)"
  by (simp add: insertMatcher_def Let_def)






lemma createRouteRecordMatcher_globalOptions:
  "globalOptions (snd (createRouteRecordMatcher ext r parent options st)) = globalOptions st"
  by (simp add: createRouteRecordMatcher_def Let_def split: option.splits)






















lemma insertMatcher_set:
  "set (matchers (insertMatcher ext m st)) = insert m (set (matchers st))"
proof -
  have "set (take i xs) \<union> set (drop i xs) = set xs" for i and xs :: "route_record_matcher list"
    by (metis append_take_drop_id set_append)
  then show ?thesis
    by (auto simp: insertMatcher_matchers)
qed

lemma closeRecord_set:
  "set (matchers (closeRecord ext m st)) =
     (if hasRenderTarget m then insert m (set (matchers st)) else set (matchers st))"
  by (simp add: closeRecord_def insertMatcher_set)


text \<open>After the original, the loop only adds: nothing is removed below an alias.\<close>

lemma openRecord_alias_phase:
  assumes "isAliasRecord parent \<or> (orig \<noteq> None \<and> rec_aliasOf nr \<noteq> None)"
  shows "matchers (snd (snd (openRecord ext r isRootAdd parent options nr orig om st))) =
           matchers st \<and>
         isAliasRecord (Some (fst (openRecord ext r isRootAdd parent options nr orig om st)))"
  using assms
  by (cases parent; cases orig)
    (auto simp: openRecord_def createRouteRecordMatcher_def Let_def simp del: removeRoute.simps)

lemma alias_phase_mono:
  shows "orig \<noteq> None \<or> isAliasRecord parent \<Longrightarrow>
           set (matchers st) \<subseteq> set (matchers (snd (addRoute ext r parent orig st)))"
    and "isAliasRecord parent \<or> (orig \<noteq> None \<and> (\<forall>nr\<in>set nrs. rec_aliasOf nr \<noteq> None)) \<Longrightarrow>
           set (matchers st) \<subseteq>
             set (matchers (snd (addRecords ext r isRootAdd parent options nrs orig om st)))"
    and "isAliasRecord (Some m) \<Longrightarrow>
           set (matchers st) \<subseteq> set (matchers (addChildren ext cs i m orig st))"
proof (induction ext r parent orig st and ext r isRootAdd parent options nrs orig om st
    and ext cs i m orig st rule: addRoute_addRecords_addChildren.induct)
  case (1 ext r parent originalRecord st)
  have "\<forall>nr\<in>set (normalizedRecords r originalRecord st). rec_aliasOf nr \<noteq> None"
    if "originalRecord \<noteq> None"
    using that by (auto simp: normalizedRecords_def Let_def)
  with 1 show ?case by (auto simp: addRoute.simps)
next
  case (2 ext r isRootAdd parent options originalRecord originalMatcher st)
  then show ?case by simp
next
  case (3 ext r isRootAdd parent options normalizedRecord rest originalRecord originalMatcher st)
  obtain matcher om1 st1 where o:
    "openRecord ext r isRootAdd parent options normalizedRecord originalRecord originalMatcher st =
       (matcher, om1, st1)"
    by (cases "openRecord ext r isRootAdd parent options normalizedRecord originalRecord
          originalMatcher st") auto
  from "3.prems" have
    "isAliasRecord parent \<or> (originalRecord \<noteq> None \<and> rec_aliasOf normalizedRecord \<noteq> None)"
    by auto
  from openRecord_alias_phase [OF this, of ext r isRootAdd options originalMatcher st] o
  have m1: "matchers st1 = matchers st" and al: "isAliasRecord (Some matcher)"
    by simp_all
  from "3.IH"(1) [OF o [symmetric] refl al]
  have s1: "set (matchers st1) \<subseteq>
      set (matchers (addChildren ext (raw_children r) 0 matcher originalRecord st1))" .
  have s2: "set (matchers (addChildren ext (raw_children r) 0 matcher originalRecord st1)) \<subseteq>
      set (matchers (closeRecord ext matcher
             (addChildren ext (raw_children r) 0 matcher originalRecord st1)))"
    by (auto simp: closeRecord_set)
  from "3.prems" have
    "isAliasRecord parent \<or>
     ((case originalRecord of Some orig \<Rightarrow> Some orig | None \<Rightarrow> Some matcher) \<noteq> None \<and>
      (\<forall>nr\<in>set rest. rec_aliasOf nr \<noteq> None))"
    by (auto split: option.splits)
  from "3.IH"(2) [OF o [symmetric] refl this] s1 s2 m1 o show ?case
    by auto
next
  case (4 ext i matcher originalRecord st)
  then show ?case by simp
next
  case (5 ext child rest i matcher originalRecord st)
  from "5.IH"(1) "5.prems" have
    "set (matchers st) \<subseteq>
     set (matchers (snd (addRoute ext child (Some matcher) (originalChild originalRecord i st) st)))"
    by blast
  with "5.IH"(2) [OF "5.prems"] show ?case by auto
qed

lemma openRecord_root:
  "fst (snd (openRecord ext r isRootAdd parent options nr None None st)) =
     Some (fst (openRecord ext r isRootAdd parent options nr None None st))"
  "mid (fst (openRecord ext r isRootAdd parent options nr orig om st)) = next_id st"
  by (auto simp: openRecord_def createRouteRecordMatcher_def Let_def
      split: option.splits simp del: removeRoute.simps)

lemma openRecord_alias_originalMatcher:
  "fst (snd (openRecord ext r isRootAdd parent options nr (Some orig) om st)) = om"
  by (simp add: openRecord_def Let_def split: prod.splits)

lemma addRecords_alias_fst:
  "fst (addRecords ext r isRootAdd parent options nrs (Some orig) om st) = om"
proof (induction nrs arbitrary: om st)
  case Nil
  then show ?case by simp
next
  case (Cons nr nrs)
  obtain matcher om1 st1 where o:
    "openRecord ext r isRootAdd parent options nr (Some orig) om st = (matcher, om1, st1)"
    by (cases "openRecord ext r isRootAdd parent options nr (Some orig) om st") auto
  with openRecord_alias_originalMatcher [where ext = ext and r = r and isRootAdd = isRootAdd
      and parent = parent and options = options and nr = nr and orig = orig and om = om
      and st = st]
  have "om1 = om" by simp
  with o Cons.IH show ?case by simp
qed

lemma addRoute_root_inserted:
  assumes "fst (addRoute ext r parent None st) = Some m"
  shows "mid m = next_id st"
    and "hasRenderTarget m \<Longrightarrow> m \<in> set (matchers (snd (addRoute ext r parent None st)))"
proof -
  let ?options = "mergeOptions (globalOptions st) (raw_options r)"
  obtain main rest where n: "normalizedRecords r None st = main # rest"
    and al: "\<forall>nr\<in>set rest. rec_aliasOf nr \<noteq> None"
    by (auto simp: normalizedRecords_def Let_def)
  obtain x om1 st1 where o:
    "openRecord ext r True parent ?options main None None st = (x, om1, st1)"
    by (cases "openRecord ext r True parent ?options main None None st") auto
  with openRecord_root(1) [where ext = ext and r = r and isRootAdd = True and parent = parent
      and options = ?options and nr = main and st = st]
    openRecord_root(2) [where ext = ext and r = r and isRootAdd = True and parent = parent
      and options = ?options and nr = main and st = st and orig = None and om = None]
  have om1: "om1 = Some x" and mx: "mid x = next_id st"
    by simp_all
  let ?st3 = "closeRecord ext x (addChildren ext (raw_children r) 0 x None st1)"
  have eq: "addRoute ext r parent None st =
      addRecords ext r True parent ?options rest (Some x) (Some x) ?st3"
    using n o om1 by (simp add: addRoute.simps)
  with assms addRecords_alias_fst [where ext = ext and r = r and isRootAdd = True
      and parent = parent and options = ?options and nrs = rest and orig = x and om = "Some x"
      and st = ?st3]
  have mx': "m = x" by simp
  with mx show "mid m = next_id st" by simp
  assume "hasRenderTarget m"
  with mx' have "x \<in> set (matchers ?st3)"
    by (simp add: closeRecord_set)
  moreover from alias_phase_mono(2) [where parent = parent and orig = "Some x" and nrs = rest
      and st = ?st3 and ext = ext and r = r and isRootAdd = True and options = ?options
      and om = "Some x"] al
  have "set (matchers ?st3) \<subseteq>
        set (matchers (snd (addRecords ext r True parent ?options rest (Some x) (Some x) ?st3)))"
    by simp
  ultimately show "m \<in> set (matchers (snd (addRoute ext r parent None st)))"
    using eq mx' by auto
qed





section \<open>Further properties\<close>

text \<open>
  Where every child has a larger number than its parent, and one the registry has
  given out, \<open>isRecordChildOf\<close> satisfies the recursion of the source as it is written,
  without the test on the numbers. The registries the operations build are such.
\<close>

lemma isRecordChildOf_source_equation:
  assumes "childrenOrdered st"
  shows "isRecordChildOf st r parent =
     list_ex (\<lambda>child. mid child = mid r \<or> isRecordChildOf st r child)
       (children_of st (mid parent))"
proof -
  have "list_ex
       (\<lambda>child.
          if mid child = mid r then True
          else if mid parent < mid child \<and> mid child < next_id st
          then isRecordChildOf st r child
          else False)
       (children_of st (mid parent)) =
     list_ex (\<lambda>child. mid child = mid r \<or> isRecordChildOf st r child)
       (children_of st (mid parent))"
    using assms by (intro list_ex_cong) (auto simp: childrenOrdered_def)
  then show ?thesis
    by (subst isRecordChildOf.simps) simp
qed

lemma removeMatchers_store:
  "children_of (removeMatchers pending st) = children_of st \<and>
   alias_of (removeMatchers pending st) = alias_of st \<and>
   next_id (removeMatchers pending st) = next_id st \<and>
   globalOptions (removeMatchers pending st) = globalOptions st"
  by (induction pending st rule: removeMatchers.induct) (auto split: option.splits)

lemma removeRoute_store:
  "children_of (removeRoute ref st) = children_of st \<and>
   alias_of (removeRoute ref st) = alias_of st \<and>
   next_id (removeRoute ref st) = next_id st \<and>
   globalOptions (removeRoute ref st) = globalOptions st"
  by (cases ref) (auto simp: removeMatchers_store split: option.splits simp del: removeMatchers.simps)

lemma removeRoute_childrenOrdered:
  "childrenOrdered (removeRoute ref st) = childrenOrdered st"
  by (simp add: childrenOrdered_def removeRoute_store del: removeRoute.simps)

lemma insertMatcher_childrenOrdered:
  "childrenOrdered (insertMatcher ext m st) = childrenOrdered st"
  "next_id (insertMatcher ext m st) = next_id st"
  by (simp_all add: childrenOrdered_def insertMatcher_def Let_def)

lemma closeRecord_childrenOrdered:
  "childrenOrdered (closeRecord ext m st) = childrenOrdered st"
  "next_id (closeRecord ext m st) = next_id st"
  by (simp_all add: closeRecord_def insertMatcher_childrenOrdered)

lemma createRouteRecordMatcher_childrenOrdered:
  assumes "childrenOrdered st" and "case parent of None \<Rightarrow> True | Some p \<Rightarrow> mid p < next_id st"
  shows "childrenOrdered (snd (createRouteRecordMatcher ext r parent options st))"
    and "next_id (snd (createRouteRecordMatcher ext r parent options st)) = Suc (next_id st)"
    and "mid (fst (createRouteRecordMatcher ext r parent options st)) = next_id st"
  using assms
  by (auto simp: createRouteRecordMatcher_def Let_def childrenOrdered_def less_Suc_eq
      split: option.splits)

lemma openRecord_childrenOrdered:
  assumes "childrenOrdered st" and "case parent of None \<Rightarrow> True | Some p \<Rightarrow> mid p < next_id st"
  shows "childrenOrdered (snd (snd (openRecord ext r isRootAdd parent options nr orig om st)))"
    and "next_id (snd (snd (openRecord ext r isRootAdd parent options nr orig om st))) =
           Suc (next_id st)"
proof -
  let ?nr = "case parent of
          Some p \<Rightarrow>
            if \<not> startsWithSlash (rec_path nr)
            then nr\<lparr>rec_path := joinPath (rec_path (mrecord p)) (rec_path nr)\<rparr> else nr
        | None \<Rightarrow> nr"
  obtain matcher st1 where c:
    "createRouteRecordMatcher ext ?nr parent options st = (matcher, st1)"
    by (cases "createRouteRecordMatcher ext ?nr parent options st") auto
  from createRouteRecordMatcher_childrenOrdered [OF assms, of ext ?nr options] c
  have i: "childrenOrdered st1" and n: "next_id st1 = Suc (next_id st)"
    by simp_all
  have a: "childrenOrdered (st1\<lparr>alias_of := f\<rparr>)" "next_id (st1\<lparr>alias_of := f\<rparr>) = Suc (next_id st)"
    for f
    using i n by (simp_all add: childrenOrdered_def)
  show "childrenOrdered (snd (snd (openRecord ext r isRootAdd parent options nr orig om st)))"
    using c i a(1)
    by (auto simp: openRecord_def Let_def removeRoute_childrenOrdered
        split: option.splits simp del: removeRoute.simps)
  show "next_id (snd (snd (openRecord ext r isRootAdd parent options nr orig om st))) =
           Suc (next_id st)"
    using c n a(2)
    by (auto simp: openRecord_def Let_def removeRoute_store
        split: option.splits simp del: removeRoute.simps)
qed

lemma addRoute_childrenOrdered:
  shows "childrenOrdered st \<Longrightarrow> (case parent of None \<Rightarrow> True | Some p \<Rightarrow> mid p < next_id st) \<Longrightarrow>
           childrenOrdered (snd (addRoute ext r parent orig st)) \<and>
           next_id st \<le> next_id (snd (addRoute ext r parent orig st))"
    and "childrenOrdered st \<Longrightarrow> (case parent of None \<Rightarrow> True | Some p \<Rightarrow> mid p < next_id st) \<Longrightarrow>
           childrenOrdered (snd (addRecords ext r isRootAdd parent options nrs orig om st)) \<and>
           next_id st \<le> next_id (snd (addRecords ext r isRootAdd parent options nrs orig om st))"
    and "childrenOrdered st \<Longrightarrow> mid m < next_id st \<Longrightarrow>
           childrenOrdered (addChildren ext cs i m orig st) \<and>
           next_id st \<le> next_id (addChildren ext cs i m orig st)"
proof (induction ext r parent orig st and ext r isRootAdd parent options nrs orig om st
    and ext cs i m orig st rule: addRoute_addRecords_addChildren.induct)
  case (1 ext r parent originalRecord st)
  then show ?case by (simp add: addRoute.simps)
next
  case (2 ext r isRootAdd parent options originalRecord originalMatcher st)
  then show ?case by simp
next
  case (3 ext r isRootAdd parent options normalizedRecord rest originalRecord originalMatcher st)
  obtain matcher om1 st1 where o:
    "openRecord ext r isRootAdd parent options normalizedRecord originalRecord originalMatcher st =
       (matcher, om1, st1)"
    by (cases "openRecord ext r isRootAdd parent options normalizedRecord originalRecord
          originalMatcher st") auto
  from openRecord_childrenOrdered [OF "3.prems", of ext r isRootAdd options normalizedRecord
      originalRecord originalMatcher] o
  have i1: "childrenOrdered st1" and n1: "next_id st1 = Suc (next_id st)"
    by simp_all
  from openRecord_root(2) [where ext = ext and r = r and isRootAdd = isRootAdd
      and parent = parent and options = options and nr = normalizedRecord
      and orig = originalRecord and om = originalMatcher and st = st] o
  have mm: "mid matcher = next_id st" by simp
  let ?st2 = "addChildren ext (raw_children r) 0 matcher originalRecord st1"
  from "3.IH"(1) [OF o [symmetric] refl i1] mm n1
  have i2: "childrenOrdered ?st2" and n2: "next_id st1 \<le> next_id ?st2"
    by simp_all
  let ?st3 = "closeRecord ext matcher ?st2"
  from i2 n2 have i3: "childrenOrdered ?st3" and n3: "next_id st1 \<le> next_id ?st3"
    by (simp_all add: closeRecord_childrenOrdered)
  have p3: "case parent of None \<Rightarrow> True | Some p \<Rightarrow> mid p < next_id ?st3"
    using "3.prems"(2) n1 n3 by (auto split: option.splits)
  from "3.IH"(2) [OF o [symmetric] refl i3 p3] o n1 n3 show ?case
    by simp
next
  case (4 ext i matcher originalRecord st)
  then show ?case by simp
next
  case (5 ext child rest i matcher originalRecord st)
  let ?st1 = "snd (addRoute ext child (Some matcher) (originalChild originalRecord i st) st)"
  from "5.IH"(1) [OF "5.prems"(1)] "5.prems"(2)
  have i1: "childrenOrdered ?st1" and n1: "next_id st \<le> next_id ?st1"
    by simp_all
  with "5.prems"(2) have "mid matcher < next_id ?st1" by simp
  from "5.IH"(2) [OF i1 this] n1 show ?case by simp
qed

lemma built_childrenOrdered: "built ext st \<Longrightarrow> childrenOrdered st"
proof (induction rule: built.induct)
  case (built_created globalOpts)
  then show ?case by (simp add: childrenOrdered_def emptyMatcher_def)
next
  case (built_added st parent r)
  with addRoute_childrenOrdered(1) [of st parent ext r None] show ?case by simp
next
  case (built_removed st ref)
  then show ?case by (simp add: removeRoute_childrenOrdered del: removeRoute.simps)
qed

lemma built_isRecordChildOf:
  "built ext st \<Longrightarrow>
   isRecordChildOf st r parent =
     list_ex (\<lambda>child. mid child = mid r \<or> isRecordChildOf st r child)
       (children_of st (mid parent))"
  by (rule isRecordChildOf_source_equation) (rule built_childrenOrdered)

lemma removeMatchers_map_None:
  "matcherMap st name = None \<Longrightarrow> matcherMap (removeMatchers pending st) name = None"
  by (induction pending st rule: removeMatchers.induct) (auto split: option.splits)

text \<open>
  The part of the cascade that holds for every registry: after \<open>removeRoute\<close> of a
  name, the name is not in the name table, so resolving it raises
  \<open>MATCHER_NOT_FOUND\<close>; and \<open>removeRoute\<close> of a name that is not registered changes
  nothing.
\<close>

theorem removeRoute_by_name_unregisters:
  "matcherMap (removeRoute (RefName name) st) name = None \<and>
   (truthy_name (Some name) \<longrightarrow>
      resolve (removeRoute (RefName name) st) (namedRequest name params) currentLocation =
        Inl MATCHER_NOT_FOUND) \<and>
   (matcherMap st name = None \<longrightarrow> removeRoute (RefName name) st = st)"
proof -
  have a: "matcherMap (removeRoute (RefName name) st) name = None"
    by (cases "matcherMap st name") (simp_all add: removeMatchers_map_None del: removeMatchers.simps)
  then have "resolve (removeRoute (RefName name) st) (namedRequest name params) currentLocation =
        Inl MATCHER_NOT_FOUND" if "truthy_name (Some name)"
    using that by (simp add: resolve_def resolveTarget_def namedRequest_def del: removeRoute.simps)
  with a show ?thesis by simp
qed

theorem removeRoute_by_name_unregisters_witness:
  "truthy_name (Some (NameString ''a'')) \<and>
   matcherMap aRegistry (NameString ''a'') = Some aMatcher \<and>
   matcherMap aRegistry (NameString ''zz'') = None \<and>
   resolve (removeRoute (RefName (NameString ''a'')) aRegistry)
     (namedRequest (NameString ''a'') None) rootLocation = Inl MATCHER_NOT_FOUND \<and>
   removeRoute (RefName (NameString ''zz'')) aRegistry = aRegistry"
proof -
  have t: "truthy_name (Some (NameString ''a''))" by simp
  have m: "matcherMap aRegistry (NameString ''a'') = Some aMatcher"
    "matcherMap aRegistry (NameString ''zz'') = None"
    by (simp_all add: aRegistry_def)
  from removeRoute_by_name_unregisters [of "NameString ''a''" aRegistry None rootLocation] t
  have "resolve (removeRoute (RefName (NameString ''a'')) aRegistry)
     (namedRequest (NameString ''a'') None) rootLocation = Inl MATCHER_NOT_FOUND"
    by blast
  moreover from removeRoute_by_name_unregisters [of "NameString ''zz''" aRegistry None rootLocation] m(2)
  have "removeRoute (RefName (NameString ''zz'')) aRegistry = aRegistry"
    by blast
  ultimately show ?thesis using t m by blast
qed

lemma openRecord_alias_phase_map:
  assumes "isAliasRecord parent \<or> (orig \<noteq> None \<and> rec_aliasOf nr \<noteq> None)"
  shows "matcherMap (snd (snd (openRecord ext r isRootAdd parent options nr orig om st))) =
           matcherMap st"
  using assms
  by (cases parent; cases orig)
    (auto simp: openRecord_def createRouteRecordMatcher_def Let_def simp del: removeRoute.simps)

lemma closeRecord_alias_map:
  "isAliasRecord (Some m) \<Longrightarrow> matcherMap (closeRecord ext m st) = matcherMap st"
  by (simp add: closeRecord_def insertMatcher_def Let_def)

lemma alias_phase_map:
  shows "orig \<noteq> None \<or> isAliasRecord parent \<Longrightarrow>
           matcherMap (snd (addRoute ext r parent orig st)) = matcherMap st"
    and "isAliasRecord parent \<or> (orig \<noteq> None \<and> (\<forall>nr\<in>set nrs. rec_aliasOf nr \<noteq> None)) \<Longrightarrow>
           matcherMap (snd (addRecords ext r isRootAdd parent options nrs orig om st)) =
             matcherMap st"
    and "isAliasRecord (Some m) \<Longrightarrow>
           matcherMap (addChildren ext cs i m orig st) = matcherMap st"
proof (induction ext r parent orig st and ext r isRootAdd parent options nrs orig om st
    and ext cs i m orig st rule: addRoute_addRecords_addChildren.induct)
  case (1 ext r parent originalRecord st)
  have "\<forall>nr\<in>set (normalizedRecords r originalRecord st). rec_aliasOf nr \<noteq> None"
    if "originalRecord \<noteq> None"
    using that by (auto simp: normalizedRecords_def Let_def)
  with 1 show ?case by (auto simp: addRoute.simps)
next
  case (2 ext r isRootAdd parent options originalRecord originalMatcher st)
  then show ?case by simp
next
  case (3 ext r isRootAdd parent options normalizedRecord rest originalRecord originalMatcher st)
  obtain matcher om1 st1 where o:
    "openRecord ext r isRootAdd parent options normalizedRecord originalRecord originalMatcher st =
       (matcher, om1, st1)"
    by (cases "openRecord ext r isRootAdd parent options normalizedRecord originalRecord
          originalMatcher st") auto
  from "3.prems" have c:
    "isAliasRecord parent \<or> (originalRecord \<noteq> None \<and> rec_aliasOf normalizedRecord \<noteq> None)"
    by auto
  from openRecord_alias_phase [OF c, of ext r isRootAdd options originalMatcher st] o
  have al: "isAliasRecord (Some matcher)" by simp
  from openRecord_alias_phase_map [OF c, of ext r isRootAdd options originalMatcher st] o
  have m1: "matcherMap st1 = matcherMap st" by simp
  from "3.IH"(1) [OF o [symmetric] refl al]
  have m2: "matcherMap (addChildren ext (raw_children r) 0 matcher originalRecord st1) =
      matcherMap st1" .
  from "3.prems" have
    "isAliasRecord parent \<or>
     ((case originalRecord of Some orig \<Rightarrow> Some orig | None \<Rightarrow> Some matcher) \<noteq> None \<and>
      (\<forall>nr\<in>set rest. rec_aliasOf nr \<noteq> None))"
    by (auto split: option.splits)
  from "3.IH"(2) [OF o [symmetric] refl this] m1 m2 o closeRecord_alias_map [OF al] show ?case
    by simp
next
  case (4 ext i matcher originalRecord st)
  then show ?case by simp
next
  case (5 ext child rest i matcher originalRecord st)
  from "5.IH"(1) "5.prems" have
    "matcherMap (snd (addRoute ext child (Some matcher) (originalChild originalRecord i st) st)) =
       matcherMap st"
    by blast
  with "5.IH"(2) [OF "5.prems"] show ?case by simp
qed

lemma openRecord_fst_root:
  "rec_name (mrecord (fst (openRecord ext r isRootAdd parent options nr None om st))) = rec_name nr"
  "isAliasRecord (Some (fst (openRecord ext r isRootAdd parent options nr None om st))) =
     (rec_aliasOf nr \<noteq> None \<or> isAliasRecord parent)"
  by (auto simp: openRecord_def createRouteRecordMatcher_def Let_def
      split: option.splits simp del: removeRoute.simps)

text \<open>
  Replacement by name: after the addition of a named record that is not below an
  alias, the name table holds, under the record's name, the matcher created for the
  record, whatever was registered under the name before; this matcher is in the
  ordered sequence and is the one the de-registration callback removes.
\<close>

theorem addRoute_named_root_registers_name:
  assumes "truthy_name (raw_name r)" and "\<not> isAliasRecord parent"
  shows "\<exists>m. fst (addRoute ext r parent None st) = Some m \<and>
           matcherMap (snd (addRoute ext r parent None st)) (the (raw_name r)) = Some m \<and>
           m \<in> set (matchers (snd (addRoute ext r parent None st))) \<and>
           mid m = next_id st"
proof -
  let ?options = "mergeOptions (globalOptions st) (raw_options r)"
  obtain main rest where n: "normalizedRecords r None st = main # rest"
    and al: "\<forall>nr\<in>set rest. rec_aliasOf nr \<noteq> None"
    and mn: "rec_name main = raw_name r" "rec_aliasOf main = None"
    by (auto simp: normalizedRecords_def normalizeRouteRecord_def Let_def)
  obtain x om1 st1 where o:
    "openRecord ext r True parent ?options main None None st = (x, om1, st1)"
    by (cases "openRecord ext r True parent ?options main None None st") auto
  with openRecord_root(1) [where ext = ext and r = r and isRootAdd = True and parent = parent
      and options = ?options and nr = main and st = st]
  have om1: "om1 = Some x" by simp
  from openRecord_fst_root [where ext = ext and r = r and isRootAdd = True and parent = parent
      and options = ?options and nr = main and om = None and st = st] o mn assms
  have xn: "rec_name (mrecord x) = raw_name r" and xa: "\<not> isAliasRecord (Some x)"
    by simp_all
  let ?st3 = "closeRecord ext x (addChildren ext (raw_children r) 0 x None st1)"
  have eq: "addRoute ext r parent None st =
      addRecords ext r True parent ?options rest (Some x) (Some x) ?st3"
    using n o om1 by (simp add: addRoute.simps)
  from xn assms(1) have hx: "hasRenderTarget x"
    by (simp add: hasRenderTarget_def)
  with xn xa assms(1) have "matcherMap ?st3 (the (raw_name r)) = Some x"
    by (simp add: closeRecord_def insertMatcher_def Let_def)
  moreover from alias_phase_map(2) [where parent = parent and orig = "Some x" and nrs = rest
      and st = ?st3 and ext = ext and r = r and isRootAdd = True and options = ?options
      and om = "Some x"] al
  have "matcherMap (snd (addRecords ext r True parent ?options rest (Some x) (Some x) ?st3)) =
        matcherMap ?st3"
    by simp
  ultimately have a: "matcherMap (snd (addRoute ext r parent None st)) (the (raw_name r)) = Some x"
    using eq by simp
  from eq addRecords_alias_fst [where ext = ext and r = r and isRootAdd = True
      and parent = parent and options = ?options and nrs = rest and orig = x and om = "Some x"
      and st = ?st3]
  have f: "fst (addRoute ext r parent None st) = Some x" by simp
  from addRoute_root_inserted [OF f] hx a f show ?thesis by simp
qed

theorem addRoute_named_root_registers_name_witness:
  "truthy_name (raw_name (leafRoute ''/b'' ''a'' [])) \<and> \<not> isAliasRecord None \<and>
   map_option mid (matcherMap aRegistry (NameString ''a'')) = Some 0 \<and>
   map_option mid
     (matcherMap (snd (addRoute staticExternals (leafRoute ''/b'' ''a'' []) None None aRegistry))
        (NameString ''a'')) = Some 1 \<and>
   map_option mid (fst (addRoute staticExternals (leafRoute ''/b'' ''a'' []) None None aRegistry)) =
     Some 1"
proof -
  have h: "truthy_name (raw_name (leafRoute ''/b'' ''a'' []))" "\<not> isAliasRecord None"
    by (simp_all add: leafRoute_def)
  have n: "next_id aRegistry = 1" "the (raw_name (leafRoute ''/b'' ''a'' [])) = NameString ''a''"
    "map_option mid (matcherMap aRegistry (NameString ''a'')) = Some 0"
    by (simp_all add: aRegistry_def leafRoute_def aMatcher_def)
  from addRoute_named_root_registers_name [OF h, of staticExternals aRegistry] n h
  show ?thesis by auto
qed

text \<open>
  Resolution by a registered name where the target pattern declares no parameter
  named like a member of \<open>Object.prototype\<close>: the resulting params are the current
  location's values of the pattern's non-optional parameter names, overridden by the
  supplied params restricted to the names the pattern declares; a supplied key the
  pattern does not declare is absent from the result's params, and the path, which
  is \<open>stringify\<close> of these params, is the same as if the key had not been supplied. A
  result exists exactly when \<open>stringify\<close> accepts the merged params. In the example
  the current location's \<open>id\<close> is carried over when the request supplies none, and
  overridden when it supplies one; \<open>tab\<close> and \<open>stale\<close> are dropped.
\<close>

theorem resolve_by_name_params:
  assumes "truthy_name (loc_name location)"
    and "matcherMap st (the (loc_name location)) = Some matcher"
    and "\<forall>k\<in>set (keyNames matcher). k \<notin> set objectPrototypeNames"
  shows "(\<forall>result. resolve st location currentLocation = Inr result \<longrightarrow>
            ml_params result =
              (ml_params currentLocation |` set (requiredKeyNames matcher)) ++
              ((case loc_params location of None \<Rightarrow> Map.empty | Some ps \<Rightarrow> ps)
                 |` set (keyNames matcher)) \<and>
            (\<forall>k. k \<notin> set (keyNames matcher) \<longrightarrow> ml_params result k = None) \<and>
            stringify (mparser matcher) (ml_params result) = Some (ml_path result)) \<and>
         ((\<exists>result. resolve st location currentLocation = Inr result) \<longleftrightarrow>
            stringify (mparser matcher)
              ((ml_params currentLocation |` set (requiredKeyNames matcher)) ++
               ((case loc_params location of None \<Rightarrow> Map.empty | Some ps \<Rightarrow> ps)
                  |` set (keyNames matcher))) \<noteq> None) \<and>
         resolve st
           (location\<lparr>loc_params :=
              Some ((case loc_params location of None \<Rightarrow> Map.empty | Some ps \<Rightarrow> ps)
                      |` set (keyNames matcher))\<rparr>) currentLocation =
           resolve st location currentLocation"
proof -
  let ?merged = "mergedParams matcher location currentLocation"
  let ?location = "location\<lparr>loc_params :=
              Some ((case loc_params location of None \<Rightarrow> Map.empty | Some ps \<Rightarrow> ps)
                      |` set (keyNames matcher))\<rparr>"
  note eq = resolve_by_name_eq [OF assms, of currentLocation]
  have a: "truthy_name (loc_name ?location)"
    and b: "matcherMap st (the (loc_name ?location)) = Some matcher"
    using assms by simp_all
  have eq': "resolve st ?location currentLocation = resolve st location currentLocation"
    unfolding eq resolve_by_name_eq [OF a b assms(3), of currentLocation]
      mergedParams_restrict_supplied
    by (rule refl)
  have "\<forall>result. resolve st location currentLocation = Inr result \<longrightarrow>
          ml_params result = ?merged \<and>
          (\<forall>k. k \<notin> set (keyNames matcher) \<longrightarrow> ml_params result k = None) \<and>
          stringify (mparser matcher) (ml_params result) = Some (ml_path result)"
    unfolding eq
    by (auto simp: located_def Let_def mergedParams_undeclared split: option.splits)
  moreover have "(\<exists>result. resolve st location currentLocation = Inr result) \<longleftrightarrow>
      stringify (mparser matcher) ?merged \<noteq> None"
    unfolding eq by (auto split: option.splits)
  ultimately show ?thesis
    using eq' unfolding mergedParams_def by blast
qed

theorem resolve_by_name_params_witness:
  "createRouterMatcher exampleExternals [leafRoute ''/users/:id'' ''user'' []] noRawOptions =
     userRegistry \<and>
   truthy_name (loc_name userRequest) \<and>
   matcherMap userRegistry (the (loc_name userRequest)) = Some userMatcher \<and>
   (\<forall>k\<in>set (keyNames userMatcher). k \<notin> set objectPrototypeNames) \<and>
   (\<exists>result. resolve userRegistry userRequest userLocation = Inr result \<and>
      ml_params result = [''id'' \<mapsto> Single ''42''] \<and>
      ml_path result = ''/users/42'') \<and>
   truthy_name (loc_name staleRequest) \<and>
   matcherMap userRegistry (the (loc_name staleRequest)) = Some userMatcher \<and>
   (\<exists>result. resolve userRegistry staleRequest userLocation = Inr result \<and>
      ml_params result = [''id'' \<mapsto> Single ''7''] \<and>
      ml_path result = ''/users/7'')"
proof -
  have h1: "truthy_name (loc_name userRequest)" "truthy_name (loc_name staleRequest)"
    by (simp_all add: userRequest_def staleRequest_def)
  have h2: "matcherMap userRegistry (the (loc_name userRequest)) = Some userMatcher"
    "matcherMap userRegistry (the (loc_name staleRequest)) = Some userMatcher"
    by (simp_all add: userRequest_def staleRequest_def userRegistry_def)
  have ks: "keyNames userMatcher = [''id'']" "requiredKeyNames userMatcher = [''id'']"
    by (simp_all add: keyNames_def requiredKeyNames_def userMatcher_def userParser_def)
  have h3: "\<forall>k\<in>set (keyNames userMatcher). k \<notin> set objectPrototypeNames"
    by (simp add: ks objectPrototypeNames_def)
  note t = resolve_by_name_params [OF h1(1) h2(1) h3, of userLocation]
  note u = resolve_by_name_params [OF h1(2) h2(2) h3, of userLocation]
  have m: "(ml_params userLocation |` set (requiredKeyNames userMatcher)) ++
           ((case loc_params userRequest of None \<Rightarrow> Map.empty | Some ps \<Rightarrow> ps)
              |` set (keyNames userMatcher)) = [''id'' \<mapsto> Single ''42'']"
    "(ml_params userLocation |` set (requiredKeyNames userMatcher)) ++
           ((case loc_params staleRequest of None \<Rightarrow> Map.empty | Some ps \<Rightarrow> ps)
              |` set (keyNames userMatcher)) = [''id'' \<mapsto> Single ''7'']"
    by (auto simp: ks userLocation_def userRequest_def staleRequest_def map_add_def
        restrict_map_def)
  have s: "stringify (mparser userMatcher) [''id'' \<mapsto> Single ''42''] = Some ''/users/42''"
    "stringify (mparser userMatcher) [''id'' \<mapsto> Single ''7''] = Some ''/users/7''"
    by (simp_all add: userMatcher_def userParser_def)
  from t obtain result where r: "resolve userRegistry userRequest userLocation = Inr result"
    unfolding m using s by auto
  with t have "ml_params result = [''id'' \<mapsto> Single ''42'']"
    and "stringify (mparser userMatcher) (ml_params result) = Some (ml_path result)"
    unfolding m by blast+
  with s have r': "ml_params result = [''id'' \<mapsto> Single ''42'']" "ml_path result = ''/users/42''"
    by simp_all
  from u obtain result2 where r2: "resolve userRegistry staleRequest userLocation = Inr result2"
    unfolding m using s by auto
  with u have "ml_params result2 = [''id'' \<mapsto> Single ''7'']"
    and "stringify (mparser userMatcher) (ml_params result2) = Some (ml_path result2)"
    unfolding m by blast+
  with s have r2': "ml_params result2 = [''id'' \<mapsto> Single ''7'']" "ml_path result2 = ''/users/7''"
    by simp_all
  from r r' r2 r2' h1 h2 h3 userRegistry_built show ?thesis by blast
qed

end
